theory Spec2Isabelle
  imports
    Complex_Main
    "HOL-Library.Char_ord"
    "HOL-Library.List_Lexorder"
    "HOL-Library.Product_Lexorder"
    "HOL-Library.Multiset"
begin

section \<open>Python values\<close>

text \<open>
  The values \<^verbatim>\<open>json.loads\<close> produces. A number is kept by its exact value: Python's
  \<^verbatim>\<open>int\<close> and finite \<^verbatim>\<open>float\<close> agree on truth value, \<^verbatim>\<open>==\<close>, \<^verbatim>\<open>hash\<close> and \<^verbatim>\<open><\<close> whenever
  their values agree, and the scanner does nothing else with a number. The non-standard
  literals \<^verbatim>\<open>NaN\<close> and \<^verbatim>\<open>Infinity\<close> are not represented. A string is its UTF-8 bytes, on
  which equality, emptiness and the code-point order of Python strings are those of the
  byte lists (a string with an unpaired surrogate has no such bytes and is not
  represented). An object is its list of items in insertion order, with distinct keys
  (a repeated key of the text has been resolved by the parser).
\<close>

datatype json =
    JNull
  | JBool bool
  | JNum rat
  | JStr string
  | JArr "json list"
  | JObj "(string \<times> json) list"

datatype py_error =
    AttributeError
  | TypeError
  | JSONDecodeError
  | FileNotFoundError
  | OtherError string

type_synonym 'a result = "py_error + 'a"

text \<open>Truth value of a value in a condition (\<^verbatim>\<open>if not x\<close>, \<^verbatim>\<open>x and y\<close>).\<close>

fun truthy :: "json \<Rightarrow> bool" where
  "truthy JNull = False"
| "truthy (JBool b) = b"
| "truthy (JNum q) = (q \<noteq> 0)"
| "truthy (JStr s) = (s \<noteq> [])"
| "truthy (JArr xs) = (xs \<noteq> [])"
| "truthy (JObj kvs) = (kvs \<noteq> [])"

text \<open>\<^verbatim>\<open>x.get(key, default)\<close>: only a dict has the method.\<close>

fun py_get :: "json \<Rightarrow> string \<Rightarrow> json \<Rightarrow> json result" where
  "py_get (JObj kvs) k d = Inr (case map_of kvs k of None \<Rightarrow> d | Some v \<Rightarrow> v)"
| "py_get _ k d = Inl AttributeError"

text \<open>
  The sequence a \<^verbatim>\<open>for\<close> loop runs over: the elements of a list, the keys of a dict, the
  characters of a string; anything else is not iterable.
\<close>

fun py_iter :: "json \<Rightarrow> json list result" where
  "py_iter (JArr xs) = Inr xs"
| "py_iter (JObj kvs) = Inr (map (\<lambda>kv. JStr (fst kv)) kvs)"
| "py_iter (JStr s) = Inr (map (\<lambda>c. JStr [c]) s)"
| "py_iter _ = Inl TypeError"

text \<open>
  \<^verbatim>\<open>str.upper\<close> replaces every code point of the string by its upper-case form, whatever
  stands around it, and joins the results. In UTF-8 a code point below 128 is one byte,
  and among these only the letters \<^verbatim>\<open>a\<close> to \<^verbatim>\<open>z\<close> change; a code point beyond ASCII is a
  lead byte followed by its continuation bytes.
\<close>

definition is_ascii :: "char \<Rightarrow> bool" where
  "is_ascii c = ((of_char c :: nat) < 128)"

definition is_continuation :: "char \<Rightarrow> bool" where
  "is_continuation c = (128 \<le> (of_char c :: nat) \<and> (of_char c :: nat) < 192)"

text \<open>The upper-case form of an ASCII character.\<close>

definition upper_char :: "char \<Rightarrow> char" where
  "upper_char c =
     (let n = (of_char c :: nat) in if 97 \<le> n \<and> n \<le> 122 then char_of (n - 32) else c)"

text \<open>
  The upper-case form of a code point beyond ASCII, given by its UTF-8 bytes, is an entry
  of the interpreter's Unicode database. Four entries are written out: \<^verbatim>\<open>U+212A\<close> (the
  Kelvin sign, a capital letter, unchanged), \<^verbatim>\<open>U+00DF\<close> (sharp s, to \<^verbatim>\<open>SS\<close>), \<^verbatim>\<open>U+0131\<close>
  (dotless i, to \<^verbatim>\<open>I\<close>) and \<^verbatim>\<open>U+00E9\<close> (e with acute, to \<^verbatim>\<open>U+00C9\<close>). The form of every
  other code point is left unspecified: what is proved below holds whatever it is.
\<close>

definition unicode_upper :: "string \<Rightarrow> string" where
  "unicode_upper cp =
     (if cp = [CHR 0xE2, CHR 0x84, CHR 0xAA] then [CHR 0xE2, CHR 0x84, CHR 0xAA]
      else if cp = [CHR 0xC3, CHR 0x9F] then ''SS''
      else if cp = [CHR 0xC4, CHR 0xB1] then ''I''
      else if cp = [CHR 0xC3, CHR 0xA9] then [CHR 0xC3, CHR 0x89]
      else undefined cp)"

text \<open>
  The bytes of a string from left to right, with the bytes \<open>cp\<close> of the code point
  beyond ASCII that is being read: \<open>f\<close> is applied to each ASCII character and \<open>g\<close> to
  each code point beyond ASCII.
\<close>

fun map_code_points :: "(char \<Rightarrow> char) \<Rightarrow> (string \<Rightarrow> string) \<Rightarrow> string \<Rightarrow> string \<Rightarrow> string" where
  "map_code_points f g cp [] = (if cp = [] then [] else g cp)"
| "map_code_points f g cp (c # cs) =
     (if is_ascii c then (if cp = [] then [] else g cp) @ f c # map_code_points f g [] cs
      else if is_continuation c \<and> cp \<noteq> [] then map_code_points f g (cp @ [c]) cs
      else (if cp = [] then [] else g cp) @ map_code_points f g [c] cs)"

definition str_upper :: "string \<Rightarrow> string" where
  "str_upper s = map_code_points upper_char unicode_upper [] s"

text \<open>\<^verbatim>\<open>x.upper()\<close>: only a string has the method.\<close>

fun py_upper :: "json \<Rightarrow> string result" where
  "py_upper (JStr s) = Inr (str_upper s)"
| "py_upper _ = Inl AttributeError"

subsection \<open>Hashable values and their order\<close>

text \<open>
  What a member of a key tuple can be. \<^verbatim>\<open>True\<close> and \<^verbatim>\<open>1\<close> are equal and hash alike, so
  a set holds only one of them and a Boolean is stored as its number (which of the two
  equal objects the set keeps shows only when the report is printed). Lists and dicts
  are unhashable.
\<close>

datatype atom = ANone | ANum rat | AStr string

fun py_hashable :: "json \<Rightarrow> atom result" where
  "py_hashable JNull = Inr ANone"
| "py_hashable (JBool b) = Inr (ANum (if b then 1 else 0))"
| "py_hashable (JNum q) = Inr (ANum q)"
| "py_hashable (JStr s) = Inr (AStr s)"
| "py_hashable (JArr xs) = Inl TypeError"
| "py_hashable (JObj kvs) = Inl TypeError"

type_synonym finding_key = "atom \<times> atom"

text \<open>\<^verbatim>\<open>a < b\<close> is defined between two numbers and between two strings only.\<close>

fun atom_orderable :: "atom \<Rightarrow> atom \<Rightarrow> bool" where
  "atom_orderable (ANum a) (ANum b) = True"
| "atom_orderable (AStr a) (AStr b) = True"
| "atom_orderable _ _ = False"

text \<open>
  Tuples are compared at their first differing position; two keys can be compared when
  that position holds orderable values (or when there is none).
\<close>

fun key_orderable :: "finding_key \<Rightarrow> finding_key \<Rightarrow> bool" where
  "key_orderable (a1, a2) (b1, b2) =
     (if a1 \<noteq> b1 then atom_orderable a1 b1
      else if a2 \<noteq> b2 then atom_orderable a2 b2
      else True)"

text \<open>
  A linear order that agrees with Python's \<^verbatim>\<open><\<close> wherever that is defined: numbers by
  value, strings lexicographically; across kinds (where Python raises) \<^verbatim>\<open>None\<close>, then
  numbers, then strings.
\<close>

fun atom_less :: "atom \<Rightarrow> atom \<Rightarrow> bool" where
  "atom_less ANone ANone = False"
| "atom_less ANone _ = True"
| "atom_less (ANum a) ANone = False"
| "atom_less (ANum a) (ANum b) = (a < b)"
| "atom_less (ANum a) (AStr t) = True"
| "atom_less (AStr s) (AStr t) = (s < t)"
| "atom_less (AStr s) _ = False"

instantiation atom :: linorder
begin

definition less_atom :: "atom \<Rightarrow> atom \<Rightarrow> bool" where
  "less_atom a b = atom_less a b"

definition less_eq_atom :: "atom \<Rightarrow> atom \<Rightarrow> bool" where
  "less_eq_atom a b = (a = b \<or> atom_less a b)"

instance
proof
  fix x y z :: atom
  show "(x < y) = (x \<le> y \<and> \<not> y \<le> x)"
    by (cases x; cases y) (auto simp: less_atom_def less_eq_atom_def)
  show "x \<le> x"
    by (simp add: less_eq_atom_def)
  show "x \<le> y \<Longrightarrow> y \<le> z \<Longrightarrow> x \<le> z"
    by (cases x; cases y; cases z) (auto simp: less_eq_atom_def)
  show "x \<le> y \<Longrightarrow> y \<le> x \<Longrightarrow> x = y"
    by (cases x; cases y) (auto simp: less_eq_atom_def)
  show "x \<le> y \<or> y \<le> x"
    by (cases x; cases y) (auto simp: less_eq_atom_def)
qed

end

section \<open>Counters and iteration\<close>

text \<open>
  A \<^verbatim>\<open>Counter\<close> (and the \<^verbatim>\<open>dict\<close> made from it) is its list of items in insertion
  order. \<^verbatim>\<open>counts[k] += n\<close> reads a missing key as 0, then stores the sum: an existing
  key keeps its place, a new key goes to the end.
\<close>

type_synonym counter = "(string \<times> nat) list"

fun counter_add :: "string \<Rightarrow> nat \<Rightarrow> counter \<Rightarrow> counter" where
  "counter_add k n [] = [(k, n)]"
| "counter_add k n ((k', m) # rest) =
     (if k = k' then (k', m + n) # rest else (k', m) # counter_add k n rest)"

text \<open>\<^verbatim>\<open>counts.get(k, 0)\<close>, as the summary printer reads a bucket.\<close>

definition counter_get :: "counter \<Rightarrow> string \<Rightarrow> nat" where
  "counter_get c k = (case map_of c k of None \<Rightarrow> 0 | Some n \<Rightarrow> n)"

definition counter_total :: "counter \<Rightarrow> nat" where
  "counter_total c = sum_list (map snd c)"

text \<open>A \<^verbatim>\<open>for\<close> loop over a list whose body may raise: the first exception ends it.\<close>

fun for_each :: "('a \<Rightarrow> 's \<Rightarrow> 's result) \<Rightarrow> 'a list \<Rightarrow> 's \<Rightarrow> 's result" where
  "for_each body [] st = Inr st"
| "for_each body (x # xs) st =
     (case body x st of Inl e \<Rightarrow> Inl e | Inr st' \<Rightarrow> for_each body xs st')"

section \<open>Finding extractors\<close>

text \<open>The pair \<^verbatim>\<open>(vulns, severity_counts)\<close> both extractors update.\<close>

type_synonym scan_state = "finding_key set \<times> counter"

text \<open>The tuple \<^verbatim>\<open>(vuln_id, pkg_name)\<close> as a member of a set: both parts are hashed.\<close>

definition py_key :: "json \<Rightarrow> json \<Rightarrow> finding_key result" where
  "py_key vuln_id pkg_name =
     (case py_hashable vuln_id of Inl e \<Rightarrow> Inl e | Inr i \<Rightarrow>
      case py_hashable pkg_name of Inl e \<Rightarrow> Inl e | Inr p \<Rightarrow> Inr (i, p))"

text \<open>\<^verbatim>\<open>vulns.add((vuln_id, pkg_name)); severity_counts[severity] += 1\<close>.\<close>

definition add_finding :: "json \<Rightarrow> json \<Rightarrow> string \<Rightarrow> scan_state \<Rightarrow> scan_state result" where
  "add_finding vuln_id pkg_name severity st =
     (case py_key vuln_id pkg_name of Inl e \<Rightarrow> Inl e | Inr k \<Rightarrow>
        Inr (insert k (fst st), counter_add severity 1 (snd st)))"

text \<open>Body of the inner loop of \<^verbatim>\<open>extract_trivy_vulns\<close>.\<close>

definition trivy_vuln :: "json \<Rightarrow> scan_state \<Rightarrow> scan_state result" where
  "trivy_vuln vuln st =
     (case py_get vuln ''VulnerabilityID'' (JStr []) of Inl e \<Rightarrow> Inl e | Inr vuln_id \<Rightarrow>
      case py_get vuln ''PkgName'' (JStr []) of Inl e \<Rightarrow> Inl e | Inr pkg_name \<Rightarrow>
      case py_get vuln ''Severity'' (JStr ''UNKNOWN'') of Inl e \<Rightarrow> Inl e | Inr sev \<Rightarrow>
      case py_upper sev of Inl e \<Rightarrow> Inl e | Inr severity \<Rightarrow>
        if truthy vuln_id \<and> truthy pkg_name
        then add_finding vuln_id pkg_name severity st
        else Inr st)"

text \<open>Body of the outer loop of \<^verbatim>\<open>extract_trivy_vulns\<close>.\<close>

definition trivy_result :: "json \<Rightarrow> scan_state \<Rightarrow> scan_state result" where
  "trivy_result result st =
     (case py_get result ''Vulnerabilities'' (JArr []) of Inl e \<Rightarrow> Inl e | Inr vs \<Rightarrow>
      case py_iter vs of Inl e \<Rightarrow> Inl e | Inr vulns \<Rightarrow>
        for_each trivy_vuln vulns st)"

definition extract_trivy_vulns :: "json \<Rightarrow> scan_state result" where
  "extract_trivy_vulns trivy_data =
     (if \<not> truthy trivy_data then Inr ({}, [])
      else
        case py_get trivy_data ''Results'' (JArr []) of Inl e \<Rightarrow> Inl e | Inr rs \<Rightarrow>
        case py_iter rs of Inl e \<Rightarrow> Inl e | Inr results \<Rightarrow>
          for_each trivy_result results ({}, []))"

text \<open>Body of the loop of \<^verbatim>\<open>extract_grype_vulns\<close>.\<close>

definition grype_match :: "json \<Rightarrow> scan_state \<Rightarrow> scan_state result" where
  "grype_match match st =
     (case py_get match ''vulnerability'' (JObj []) of Inl e \<Rightarrow> Inl e | Inr v \<Rightarrow>
      case py_get v ''id'' (JStr []) of Inl e \<Rightarrow> Inl e | Inr vuln_id \<Rightarrow>
      case py_get match ''artifact'' (JObj []) of Inl e \<Rightarrow> Inl e | Inr a \<Rightarrow>
      case py_get a ''name'' (JStr []) of Inl e \<Rightarrow> Inl e | Inr pkg_name \<Rightarrow>
      case py_get match ''vulnerability'' (JObj []) of Inl e \<Rightarrow> Inl e | Inr v' \<Rightarrow>
      case py_get v' ''severity'' (JStr ''Unknown'') of Inl e \<Rightarrow> Inl e | Inr sev \<Rightarrow>
      case py_upper sev of Inl e \<Rightarrow> Inl e | Inr severity \<Rightarrow>
        if truthy vuln_id \<and> truthy pkg_name
        then add_finding vuln_id pkg_name severity st
        else Inr st)"

definition extract_grype_vulns :: "json \<Rightarrow> scan_state result" where
  "extract_grype_vulns grype_data =
     (if \<not> truthy grype_data then Inr ({}, [])
      else
        case py_get grype_data ''matches'' (JArr []) of Inl e \<Rightarrow> Inl e | Inr ms \<Rightarrow>
        case py_iter ms of Inl e \<Rightarrow> Inl e | Inr matches \<Rightarrow>
          for_each grype_match matches ({}, []))"

section \<open>Comparator\<close>

text \<open>
  \<^verbatim>\<open>sorted(list(s))\<close> on a set of key tuples. When every two keys of the set can be
  compared, each comparison the sort makes succeeds and agrees with the linear order
  above, so the result is the increasing list of the keys. When some two keys cannot be
  compared the call raises \<^verbatim>\<open>TypeError\<close>, in whatever order the set hands over its
  members: a sort that returns has compared every member of its result with the next
  one, and if all these neighbours are comparable then so are every two keys (the
  first parts are then all numbers or all strings, and the keys with one first part,
  which stand together, have second parts of one kind).
\<close>

definition py_sorted :: "finding_key set \<Rightarrow> finding_key list result" where
  "py_sorted s =
     (if (\<forall>a\<in>s. \<forall>b\<in>s. key_orderable a b) then Inr (sorted_list_of_set s)
      else Inl TypeError)"

text \<open>
  The returned dict and the dicts nested in it. The keys \<^verbatim>\<open>total\<close> and \<^verbatim>\<open>image\<close> are
  written \<open>total'\<close> and \<open>image'\<close>.
\<close>

record scanner_totals =
  total' :: nat
  severity :: counter

record comparison_counts =
  common_count :: nat
  only_trivy_count :: nat
  only_grype_count :: nat

record comparison_details =
  only_trivy :: "finding_key list"
  only_grype :: "finding_key list"
  common :: "finding_key list"

record image_comparison =
  image' :: string
  trivy :: scanner_totals
  grype :: scanner_totals
  comparison :: comparison_counts
  details :: comparison_details

definition compare_results ::
  "string \<Rightarrow> finding_key set \<Rightarrow> finding_key set \<Rightarrow> counter \<Rightarrow> counter
     \<Rightarrow> image_comparison result" where
  "compare_results img trivy_vulns grype_vulns trivy_severity grype_severity =
     (let only_t = trivy_vulns - grype_vulns;
          only_g = grype_vulns - trivy_vulns;
          both = trivy_vulns \<inter> grype_vulns
      in
        case py_sorted only_t of Inl e \<Rightarrow> Inl e | Inr sorted_t \<Rightarrow>
        case py_sorted only_g of Inl e \<Rightarrow> Inl e | Inr sorted_g \<Rightarrow>
        case py_sorted both of Inl e \<Rightarrow> Inl e | Inr sorted_b \<Rightarrow>
          Inr \<lparr>image' = img,
               trivy = \<lparr>total' = card trivy_vulns, severity = trivy_severity\<rparr>,
               grype = \<lparr>total' = card grype_vulns, severity = grype_severity\<rparr>,
               comparison = \<lparr>common_count = card both,
                             only_trivy_count = card only_t,
                             only_grype_count = card only_g\<rparr>,
               details = \<lparr>only_trivy = sorted_t,
                          only_grype = sorted_g,
                          common = sorted_b\<rparr>\<rparr>)"

section \<open>Scanner adapters\<close>

text \<open>
  The two things outside the program: \<^verbatim>\<open>subprocess.run\<close>, which either raises (the
  binary cannot be started) or returns the completed process whatever its exit status,
  and \<^verbatim>\<open>json.loads\<close>. Lines printed to standard error are not modelled.
\<close>

record completed_process =
  returncode :: int
  stdout :: string
  stderr :: string

record environment =
  subprocess_run :: "string list \<Rightarrow> completed_process result"
  json_loads :: "string \<Rightarrow> json result"

text \<open>The \<^verbatim>\<open>try\<close> block of an adapter, given its command line.\<close>

definition run_and_parse :: "environment \<Rightarrow> string list \<Rightarrow> json result" where
  "run_and_parse env argv =
     (case subprocess_run env argv of Inl e \<Rightarrow> Inl e | Inr result \<Rightarrow>
        if stdout result \<noteq> [] then json_loads env (stdout result)
        else Inr (JObj []))"

text \<open>\<^verbatim>\<open>except json.JSONDecodeError: return {}\<close>; any other exception propagates.\<close>

definition except_JSONDecodeError :: "json result \<Rightarrow> json result" where
  "except_JSONDecodeError r =
     (case r of Inl JSONDecodeError \<Rightarrow> Inr (JObj []) | Inl e \<Rightarrow> Inl e | Inr v \<Rightarrow> Inr v)"

definition scan_with_trivy :: "environment \<Rightarrow> string \<Rightarrow> json result" where
  "scan_with_trivy env img =
     except_JSONDecodeError
       (run_and_parse env [''trivy'', ''image'', ''--format'', ''json'', ''--quiet'', img])"

definition scan_with_grype :: "environment \<Rightarrow> string \<Rightarrow> json result" where
  "scan_with_grype env img =
     except_JSONDecodeError (run_and_parse env [''grype'', img, ''-o'', ''json'', ''-q''])"

section \<open>Scanning all images and the aggregate report\<close>

record scanner =
  images :: "string list"
  results :: "image_comparison list"

text \<open>\<^verbatim>\<open>__init__\<close>.\<close>

definition VulnerabilityScanner :: "string list \<Rightarrow> scanner" where
  "VulnerabilityScanner imgs = \<lparr>images = imgs, results = []\<rparr>"

text \<open>Body of the loop of \<^verbatim>\<open>scan_all\<close>, on \<^verbatim>\<open>self.results\<close>.\<close>

definition scan_image ::
  "environment \<Rightarrow> string \<Rightarrow> image_comparison list \<Rightarrow> image_comparison list result" where
  "scan_image env img rs =
     (case scan_with_trivy env img of Inl e \<Rightarrow> Inl e | Inr trivy_data \<Rightarrow>
      case scan_with_grype env img of Inl e \<Rightarrow> Inl e | Inr grype_data \<Rightarrow>
      case extract_trivy_vulns trivy_data of Inl e \<Rightarrow> Inl e
        | Inr (trivy_vulns, trivy_severity) \<Rightarrow>
      case extract_grype_vulns grype_data of Inl e \<Rightarrow> Inl e
        | Inr (grype_vulns, grype_severity) \<Rightarrow>
      case compare_results img trivy_vulns grype_vulns trivy_severity grype_severity of
          Inl e \<Rightarrow> Inl e
        | Inr cmp \<Rightarrow> Inr (rs @ [cmp]))"

definition scan_all :: "environment \<Rightarrow> scanner \<Rightarrow> scanner result" where
  "scan_all env self =
     (case for_each (scan_image env) (images self) (results self) of
        Inl e \<Rightarrow> Inl e
      | Inr rs \<Rightarrow> Inr (self\<lparr>results := rs\<rparr>))"

text \<open>The seven running totals of \<^verbatim>\<open>generate_report\<close>.\<close>

record totals =
  total_trivy :: nat
  total_grype :: nat
  total_common :: nat
  total_only_trivy :: nat
  total_only_grype :: nat
  total_trivy_severity :: counter
  total_grype_severity :: counter

text \<open>\<^verbatim>\<open>for severity, count in d.items(): total[severity] += count\<close>.\<close>

definition add_items :: "counter \<Rightarrow> counter \<Rightarrow> counter" where
  "add_items d acc = fold (\<lambda>item. counter_add (fst item) (snd item)) d acc"

text \<open>Body of the loop of \<^verbatim>\<open>generate_report\<close>.\<close>

definition add_result :: "image_comparison \<Rightarrow> totals \<Rightarrow> totals" where
  "add_result result t =
     \<lparr>total_trivy = total_trivy t + total' (trivy result),
      total_grype = total_grype t + total' (grype result),
      total_common = total_common t + common_count (comparison result),
      total_only_trivy = total_only_trivy t + only_trivy_count (comparison result),
      total_only_grype = total_only_grype t + only_grype_count (comparison result),
      total_trivy_severity = add_items (severity (trivy result)) (total_trivy_severity t),
      total_grype_severity = add_items (severity (grype result)) (total_grype_severity t)\<rparr>"

definition zero_totals :: totals where
  "zero_totals =
     \<lparr>total_trivy = 0, total_grype = 0, total_common = 0, total_only_trivy = 0,
      total_only_grype = 0, total_trivy_severity = [], total_grype_severity = []\<rparr>"

text \<open>
  The report and the dicts nested in it. In the summary the keys \<^verbatim>\<open>trivy\<close>, \<^verbatim>\<open>grype\<close>,
  \<^verbatim>\<open>comparison\<close>, \<^verbatim>\<open>severity\<close>, \<^verbatim>\<open>only_trivy\<close> and \<^verbatim>\<open>only_grype\<close>, which the per-image
  records use too, are prefixed with \<open>summary_\<close>.
\<close>

record summary_scanner =
  total_findings :: nat
  summary_severity :: counter

record summary_comparison =
  common_findings :: nat
  summary_only_trivy :: nat
  summary_only_grype :: nat

record report_summary =
  images_scanned :: nat
  summary_trivy :: summary_scanner
  summary_grype :: summary_scanner
  summary_comparison :: summary_comparison

record report =
  summary :: report_summary
  per_image :: "image_comparison list"

definition generate_report :: "scanner \<Rightarrow> report" where
  "generate_report self =
     (let t = fold add_result (results self) zero_totals
      in \<lparr>summary =
            \<lparr>images_scanned = length (images self),
             summary_trivy =
               \<lparr>total_findings = total_trivy t, summary_severity = total_trivy_severity t\<rparr>,
             summary_grype =
               \<lparr>total_findings = total_grype t, summary_severity = total_grype_severity t\<rparr>,
             summary_comparison =
               \<lparr>common_findings = total_common t,
                summary_only_trivy = total_only_trivy t,
                summary_only_grype = total_only_grype t\<rparr>\<rparr>,
          per_image = results self\<rparr>)"

section \<open>Notions used to state the properties\<close>

subsection \<open>Documents that the extractors accept\<close>

text \<open>
  The documents on which an extractor raises nothing, level by level. A falsy document is
  accepted as it is; any other document has to be an object.
\<close>

definition absent_or_str :: "(string \<times> json) list \<Rightarrow> string \<Rightarrow> bool" where
  "absent_or_str kvs k =
     (case map_of kvs k of None \<Rightarrow> True | Some (JStr s) \<Rightarrow> True | Some _ \<Rightarrow> False)"

text \<open>A list or a dict cannot be a member of a key tuple.\<close>

fun unhashable :: "json \<Rightarrow> bool" where
  "unhashable (JArr xs) = True"
| "unhashable (JObj kvs) = True"
| "unhashable _ = False"

text \<open>The value of a key of an object, an absent key being read as the default.\<close>

definition field :: "(string \<times> json) list \<Rightarrow> string \<Rightarrow> json \<Rightarrow> json" where
  "field kvs k d = (case map_of kvs k of None \<Rightarrow> d | Some v \<Rightarrow> v)"

text \<open>
  The id and the package name of a finding: unless one of them is falsy (the finding is
  then dropped), both must be hashable.
\<close>

definition key_parts_accepted :: "json \<Rightarrow> json \<Rightarrow> bool" where
  "key_parts_accepted i p = (truthy i \<and> truthy p \<longrightarrow> \<not> unhashable i \<and> \<not> unhashable p)"

text \<open>
  A level that is iterated over: absent, or an array whose members are accepted, or an
  empty string or an empty object (over which a loop runs zero times).
\<close>

definition members_accepted :: "(json \<Rightarrow> bool) \<Rightarrow> json option \<Rightarrow> bool" where
  "members_accepted P level =
     (case level of
        None \<Rightarrow> True
      | Some (JArr xs) \<Rightarrow> list_all P xs
      | Some (JStr s) \<Rightarrow> s = []
      | Some (JObj kvs) \<Rightarrow> kvs = []
      | Some _ \<Rightarrow> False)"

definition trivy_vuln_accepted :: "json \<Rightarrow> bool" where
  "trivy_vuln_accepted v =
     (case v of
        JObj kvs \<Rightarrow>
          absent_or_str kvs ''Severity''
          \<and> key_parts_accepted (field kvs ''VulnerabilityID'' (JStr []))
                (field kvs ''PkgName'' (JStr []))
      | _ \<Rightarrow> False)"

definition trivy_result_accepted :: "json \<Rightarrow> bool" where
  "trivy_result_accepted r =
     (case r of
        JObj kvs \<Rightarrow> members_accepted trivy_vuln_accepted (map_of kvs ''Vulnerabilities'')
      | _ \<Rightarrow> False)"

definition trivy_accepted :: "json \<Rightarrow> bool" where
  "trivy_accepted d =
     (\<not> truthy d
      \<or> (case d of
            JObj kvs \<Rightarrow> members_accepted trivy_result_accepted (map_of kvs ''Results'')
          | _ \<Rightarrow> False))"

text \<open>The items of a nested object that may be absent (none, if it is).\<close>

definition absent_or_object :: "json option \<Rightarrow> (string \<times> json) list option" where
  "absent_or_object level =
     (case level of None \<Rightarrow> Some [] | Some (JObj kvs) \<Rightarrow> Some kvs | Some _ \<Rightarrow> None)"

definition grype_match_accepted :: "json \<Rightarrow> bool" where
  "grype_match_accepted m =
     (case m of
        JObj kvs \<Rightarrow>
          (case absent_or_object (map_of kvs ''vulnerability'') of
             None \<Rightarrow> False
           | Some vkvs \<Rightarrow>
               (case absent_or_object (map_of kvs ''artifact'') of
                  None \<Rightarrow> False
                | Some akvs \<Rightarrow>
                    absent_or_str vkvs ''severity''
                    \<and> key_parts_accepted (field vkvs ''id'' (JStr []))
                          (field akvs ''name'' (JStr []))))
      | _ \<Rightarrow> False)"

definition grype_accepted :: "json \<Rightarrow> bool" where
  "grype_accepted d =
     (\<not> truthy d
      \<or> (case d of
            JObj kvs \<Rightarrow> members_accepted grype_match_accepted (map_of kvs ''matches'')
          | _ \<Rightarrow> False))"

text \<open>
  A Trivy report with a \<^verbatim>\<open>Vulnerabilities\<close> that is an empty string, a finding whose id is
  \<^verbatim>\<open>null\<close> and a finding whose id is a number.
\<close>

definition odd_example :: json where
  "odd_example =
     JObj [(''Results'', JArr [
        JObj [(''Vulnerabilities'', JStr [])],
        JObj [(''Vulnerabilities'', JArr [
           JObj [(''VulnerabilityID'', JNull), (''PkgName'', JStr ''openssl'')],
           JObj [(''VulnerabilityID'', JNum 7), (''PkgName'', JStr ''zlib''),
                 (''Severity'', JStr ''low'')]])]])]"

subsection \<open>Environments\<close>

text \<open>No scanner binary is installed: starting the process raises.\<close>

definition missing_binary :: environment where
  "missing_binary =
     \<lparr>subprocess_run = (\<lambda>argv. Inl FileNotFoundError),
      json_loads = (\<lambda>s. Inl JSONDecodeError)\<rparr>"

text \<open>Every scanner run exits with status 1 and prints nothing on standard output.\<close>

definition silent_failure :: environment where
  "silent_failure =
     \<lparr>subprocess_run =
        (\<lambda>argv. Inr \<lparr>returncode = 1, stdout = [], stderr = ''cannot pull image''\<rparr>),
      json_loads = (\<lambda>s. Inl JSONDecodeError)\<rparr>"

text \<open>Every scanner run exits with status 0 and prints text that is not JSON.\<close>

definition garbage_output :: environment where
  "garbage_output =
     \<lparr>subprocess_run =
        (\<lambda>argv. Inr \<lparr>returncode = 0, stdout = ''usage: scanner'', stderr = []\<rparr>),
      json_loads = (\<lambda>s. Inl JSONDecodeError)\<rparr>"

subsection \<open>Finding keys made of two strings\<close>

text \<open>The key tuple of a vulnerability id and a package name that are both strings.\<close>

definition string_key :: "string \<times> string \<Rightarrow> finding_key" where
  "string_key k = (AStr (fst k), AStr (snd k))"

subsection \<open>The raw findings of a document and their fields\<close>

text \<open>
  The findings a Trivy document lists, in document order: the members of the
  \<^verbatim>\<open>Vulnerabilities\<close> of every member of \<^verbatim>\<open>Results\<close> (none where a level is absent or
  cannot be read).
\<close>

definition trivy_result_findings :: "json \<Rightarrow> json list" where
  "trivy_result_findings result =
     (case py_get result ''Vulnerabilities'' (JArr []) of Inl e \<Rightarrow> [] | Inr vs \<Rightarrow>
      case py_iter vs of Inl e \<Rightarrow> [] | Inr vulns \<Rightarrow> vulns)"

definition trivy_findings :: "json \<Rightarrow> json list" where
  "trivy_findings d =
     (if \<not> truthy d then []
      else
        case py_get d ''Results'' (JArr []) of Inl e \<Rightarrow> [] | Inr rs \<Rightarrow>
        case py_iter rs of Inl e \<Rightarrow> [] | Inr rlist \<Rightarrow>
          concat (map trivy_result_findings rlist))"

text \<open>The findings a Grype document lists: the members of \<^verbatim>\<open>matches\<close>.\<close>

definition grype_findings :: "json \<Rightarrow> json list" where
  "grype_findings d =
     (if \<not> truthy d then []
      else
        case py_get d ''matches'' (JArr []) of Inl e \<Rightarrow> [] | Inr ms \<Rightarrow>
        case py_iter ms of Inl e \<Rightarrow> [] | Inr matches \<Rightarrow> matches)"

text \<open>Vulnerability id, package name and upper-cased severity label of a raw finding.\<close>

definition trivy_id :: "json \<Rightarrow> json result" where
  "trivy_id v = py_get v ''VulnerabilityID'' (JStr [])"

definition trivy_pkg :: "json \<Rightarrow> json result" where
  "trivy_pkg v = py_get v ''PkgName'' (JStr [])"

definition trivy_label :: "json \<Rightarrow> string result" where
  "trivy_label v =
     (case py_get v ''Severity'' (JStr ''UNKNOWN'') of Inl e \<Rightarrow> Inl e | Inr s \<Rightarrow> py_upper s)"

definition grype_id :: "json \<Rightarrow> json result" where
  "grype_id m =
     (case py_get m ''vulnerability'' (JObj []) of Inl e \<Rightarrow> Inl e
      | Inr v \<Rightarrow> py_get v ''id'' (JStr []))"

definition grype_pkg :: "json \<Rightarrow> json result" where
  "grype_pkg m =
     (case py_get m ''artifact'' (JObj []) of Inl e \<Rightarrow> Inl e
      | Inr a \<Rightarrow> py_get a ''name'' (JStr []))"

definition grype_label :: "json \<Rightarrow> string result" where
  "grype_label m =
     (case py_get m ''vulnerability'' (JObj []) of Inl e \<Rightarrow> Inl e | Inr v \<Rightarrow>
      case py_get v ''severity'' (JStr ''Unknown'') of Inl e \<Rightarrow> Inl e | Inr s \<Rightarrow> py_upper s)"

text \<open>A qualifying finding: its id and its package name are both non-empty.\<close>

definition both_nonempty :: "json result \<Rightarrow> json result \<Rightarrow> bool" where
  "both_nonempty i p =
     (case i of Inl e \<Rightarrow> False | Inr vuln_id \<Rightarrow>
      case p of Inl e \<Rightarrow> False | Inr pkg_name \<Rightarrow> truthy vuln_id \<and> truthy pkg_name)"

definition trivy_qualifies :: "json \<Rightarrow> bool" where
  "trivy_qualifies v = both_nonempty (trivy_id v) (trivy_pkg v)"

definition grype_qualifies :: "json \<Rightarrow> bool" where
  "grype_qualifies m = both_nonempty (grype_id m) (grype_pkg m)"

text \<open>The key of a finding.\<close>

definition key_of :: "json result \<Rightarrow> json result \<Rightarrow> finding_key result" where
  "key_of i p =
     (case i of Inl e \<Rightarrow> Inl e | Inr vuln_id \<Rightarrow>
      case p of Inl e \<Rightarrow> Inl e | Inr pkg_name \<Rightarrow> py_key vuln_id pkg_name)"

definition trivy_key :: "json \<Rightarrow> finding_key result" where
  "trivy_key v = key_of (trivy_id v) (trivy_pkg v)"

definition grype_key :: "json \<Rightarrow> finding_key result" where
  "grype_key m = key_of (grype_id m) (grype_pkg m)"

text \<open>A member of a key that is neither empty nor zero nor \<^verbatim>\<open>None\<close>.\<close>

fun atom_nonempty :: "atom \<Rightarrow> bool" where
  "atom_nonempty ANone = False"
| "atom_nonempty (ANum q) = (q \<noteq> 0)"
| "atom_nonempty (AStr s) = (s \<noteq> [])"

subsection \<open>Labels that differ only in case\<close>

definition is_lower :: "char \<Rightarrow> bool" where
  "is_lower c = (97 \<le> (of_char c :: nat) \<and> (of_char c :: nat) \<le> 122)"

definition is_upper :: "char \<Rightarrow> bool" where
  "is_upper c = (65 \<le> (of_char c :: nat) \<and> (of_char c :: nat) \<le> 90)"

text \<open>The same character, or the small and the capital form of one ASCII letter.\<close>

definition same_letter :: "char \<Rightarrow> char \<Rightarrow> bool" where
  "same_letter c d =
     (c = d
      \<or> (is_lower c \<and> is_upper d \<and> (of_char c :: nat) = of_char d + 32)
      \<or> (is_upper c \<and> is_lower d \<and> (of_char d :: nat) = of_char c + 32))"

text \<open>
  Two labels that are equal byte by byte except where one has the small and the other
  the capital form of an ASCII letter.
\<close>

definition differ_only_in_case :: "string \<Rightarrow> string \<Rightarrow> bool" where
  "differ_only_in_case s t = list_all2 same_letter s t"

text \<open>
  Beyond ASCII: the Kelvin sign \<^verbatim>\<open>U+212A\<close> is a second capital form of the letter k
  (\<^verbatim>\<open>str.lower\<close> and \<^verbatim>\<open>str.casefold\<close> turn it into \<^verbatim>\<open>k\<close>). Two code points are the same
  letter when they are equal, or two forms of one ASCII letter, or two forms of k.
\<close>

definition kelvin_sign :: string where
  "kelvin_sign = [CHR 0xE2, CHR 0x84, CHR 0xAA]"

definition forms_of_k :: "string list" where
  "forms_of_k = [''k'', ''K'', kelvin_sign]"

definition same_letter_code_point :: "string \<Rightarrow> string \<Rightarrow> bool" where
  "same_letter_code_point a b =
     (a = b
      \<or> (case (a, b) of ([c], [d]) \<Rightarrow> same_letter c d | _ \<Rightarrow> False)
      \<or> (a \<in> set forms_of_k \<and> b \<in> set forms_of_k))"

text \<open>The same for two labels given code point by code point.\<close>

definition code_points_differ_only_in_case :: "string list \<Rightarrow> string list \<Rightarrow> bool" where
  "code_points_differ_only_in_case as bs = list_all2 same_letter_code_point as bs"

text \<open>A Trivy report whose two findings have the severities \<^verbatim>\<open>unknown\<close> and \<^verbatim>\<open>UNKNOWN\<close>,
  the latter written with the Kelvin sign.\<close>

definition kelvin_example :: json where
  "kelvin_example =
     JObj [(''Results'', JArr [JObj [(''Vulnerabilities'', JArr [
        JObj [(''VulnerabilityID'', JStr ''CVE-2021-1''), (''PkgName'', JStr ''openssl''),
              (''Severity'', JStr (concat [''u'', ''n'', ''k'', ''n'', ''o'', ''w'', ''n'']))],
        JObj [(''VulnerabilityID'', JStr ''CVE-2022-2''), (''PkgName'', JStr ''zlib''),
              (''Severity'',
                 JStr (concat [''U'', ''N'', kelvin_sign, ''N'', ''O'', ''W'', ''N'']))]])]])]"

subsection \<open>Example documents\<close>

text \<open>
  A Trivy report with the same finding twice (in different case of the severity), a
  finding with an empty id, one without a package name, one without a severity, and a
  result without vulnerabilities.
\<close>

definition trivy_example :: json where
  "trivy_example =
     JObj [(''SchemaVersion'', JNum 2),
           (''Results'', JArr [
              JObj [(''Target'', JStr ''alpine''),
                    (''Vulnerabilities'', JArr [
                       JObj [(''VulnerabilityID'', JStr ''CVE-2021-1''),
                             (''PkgName'', JStr ''openssl''), (''Severity'', JStr ''High'')],
                       JObj [(''VulnerabilityID'', JStr ''CVE-2021-1''),
                             (''PkgName'', JStr ''openssl''), (''Severity'', JStr ''high'')],
                       JObj [(''VulnerabilityID'', JStr []),
                             (''PkgName'', JStr ''openssl''), (''Severity'', JStr ''high'')],
                       JObj [(''VulnerabilityID'', JStr ''CVE-2020-7''),
                             (''Severity'', JStr ''LOW'')],
                       JObj [(''VulnerabilityID'', JStr ''CVE-2022-2''),
                             (''PkgName'', JStr ''zlib'')]])],
              JObj [(''Target'', JStr ''app/lib'')]])]"

text \<open>The like for Grype.\<close>

definition grype_example :: json where
  "grype_example =
     JObj [(''matches'', JArr [
              JObj [(''vulnerability'',
                       JObj [(''id'', JStr ''CVE-2021-1''), (''severity'', JStr ''Critical'')]),
                    (''artifact'', JObj [(''name'', JStr ''openssl'')])],
              JObj [(''vulnerability'',
                       JObj [(''id'', JStr ''CVE-2021-1''), (''severity'', JStr ''critical'')]),
                    (''artifact'', JObj [(''name'', JStr ''openssl'')])],
              JObj [(''vulnerability'', JObj [(''id'', JStr ''CVE-2022-2'')]),
                    (''artifact'', JObj [(''name'', JStr ''zlib'')])],
              JObj [(''vulnerability'', JObj [(''severity'', JStr ''High'')]),
                    (''artifact'', JObj [(''name'', JStr ''bash'')])],
              JObj [(''artifact'', JObj [(''name'', JStr ''curl'')])]])]"

subsection \<open>The record of an image on which both scans gave nothing\<close>

definition empty_comparison :: "string \<Rightarrow> image_comparison" where
  "empty_comparison img =
     \<lparr>image' = img,
      trivy = \<lparr>total' = 0, severity = []\<rparr>,
      grype = \<lparr>total' = 0, severity = []\<rparr>,
      comparison = \<lparr>common_count = 0, only_trivy_count = 0, only_grype_count = 0\<rparr>,
      details = \<lparr>only_trivy = [], only_grype = [], common = []\<rparr>\<rparr>"

subsection \<open>A counter as a mapping\<close>

text \<open>
  \<^verbatim>\<open>counts[k] += n\<close> on the mapping from keys to counts that a counter stands for; two
  dicts are equal in Python when they are equal as such mappings.
\<close>

definition bump :: "string \<Rightarrow> nat \<Rightarrow> (string \<rightharpoonup> nat) \<Rightarrow> (string \<rightharpoonup> nat)" where
  "bump k n f = f(k \<mapsto> (case f k of None \<Rightarrow> 0 | Some m \<Rightarrow> m) + n)"

subsection \<open>Example comparison records\<close>

definition comparison_x :: image_comparison where
  "comparison_x =
     \<lparr>image' = ''x'',
      trivy = \<lparr>total' = 1, severity = [(''CRITICAL'', 1)]\<rparr>,
      grype = \<lparr>total' = 2, severity = [(''CRITICAL'', 1), (''HIGH'', 1)]\<rparr>,
      comparison = \<lparr>common_count = 1, only_trivy_count = 0, only_grype_count = 1\<rparr>,
      details = \<lparr>only_trivy = [],
                 only_grype = [(AStr ''CVE-2022-2'', AStr ''zlib'')],
                 common = [(AStr ''CVE-2021-1'', AStr ''openssl'')]\<rparr>\<rparr>"

definition comparison_y :: image_comparison where
  "comparison_y =
     \<lparr>image' = ''y'',
      trivy = \<lparr>total' = 2, severity = [(''HIGH'', 1), (''LOW'', 1)]\<rparr>,
      grype = \<lparr>total' = 1, severity = [(''HIGH'', 1)]\<rparr>,
      comparison = \<lparr>common_count = 1, only_trivy_count = 1, only_grype_count = 0\<rparr>,
      details = \<lparr>only_trivy = [(AStr ''CVE-2020-7'', AStr ''bash'')],
                 only_grype = [],
                 common = [(AStr ''CVE-2023-3'', AStr ''curl'')]\<rparr>\<rparr>"

subsection \<open>A scanner that reports a finding\<close>

text \<open>
  Every scanner run exits with status 1, as both tools do when they find something, and
  prints a report with one finding, which \<^verbatim>\<open>json.loads\<close> parses.
\<close>

definition report_text :: string where
  \<open>report_text =
     ''{"Results": [{"Vulnerabilities": [{"VulnerabilityID": "CVE-2021-1", "PkgName": "openssl", "Severity": "HIGH"}]}]}''\<close>

definition report_document :: json where
  "report_document =
     JObj [(''Results'', JArr [JObj [(''Vulnerabilities'', JArr [
        JObj [(''VulnerabilityID'', JStr ''CVE-2021-1''), (''PkgName'', JStr ''openssl''),
              (''Severity'', JStr ''HIGH'')]])]])]"

definition reports_finding :: environment where
  "reports_finding =
     \<lparr>subprocess_run = (\<lambda>argv. Inr \<lparr>returncode = 1, stdout = report_text, stderr = []\<rparr>),
      json_loads = (\<lambda>s. if s = report_text then Inr report_document else Inl JSONDecodeError)\<rparr>"

section \<open>Properties of the adapters and of extraction on arbitrary documents\<close>

lemma add_finding_strings:
  "add_finding (JStr i) (JStr p) sev st
     = Inr (insert (AStr i, AStr p) (fst st), counter_add sev 1 (snd st))"
  by (simp add: add_finding_def py_key_def)

lemma returns_iff: "(\<exists>r. x = Inr r) \<longleftrightarrow> \<not> isl x"
  by (cases x) simp_all

lemma for_each_raises_iff:
  assumes "\<And>x st. isl (body x st) \<longleftrightarrow> \<not> P x"
  shows "isl (for_each body xs st) \<longleftrightarrow> \<not> list_all P xs"
proof (induction xs arbitrary: st)
  case Nil
  show ?case by simp
next
  case (Cons x xs)
  show ?case
  proof (cases "body x st")
    case (Inl e)
    then have "\<not> P x"
      using assms [of x st] by simp
    with Inl show ?thesis by simp
  next
    case (Inr st1)
    then have "P x"
      using assms [of x st] by auto
    with Inr Cons.IH [of st1] show ?thesis by simp
  qed
qed

lemma py_key_raises: "isl (py_key i p) \<longleftrightarrow> unhashable i \<or> unhashable p"
  by (cases i; cases p) (simp_all add: py_key_def)

lemma add_finding_raises: "isl (add_finding i p l st) \<longleftrightarrow> unhashable i \<or> unhashable p"
  using py_key_raises [of i p] by (cases "py_key i p") (simp_all add: add_finding_def)

lemma severity_raises:
  "isl (py_upper (case map_of kvs k of None \<Rightarrow> JStr d | Some v \<Rightarrow> v)) \<longleftrightarrow> \<not> absent_or_str kvs k"
proof (cases "map_of kvs k")
  case None
  then show ?thesis by (simp add: absent_or_str_def)
next
  case (Some v)
  then show ?thesis by (cases v) (simp_all add: absent_or_str_def)
qed

lemma finish_raises:
  "isl (case py_upper sev of Inl e \<Rightarrow> Inl e | Inr sv \<Rightarrow>
        if truthy i \<and> truthy p then add_finding i p sv st else Inr st)
   \<longleftrightarrow> isl (py_upper sev) \<or> \<not> key_parts_accepted i p"
  by (cases "py_upper sev") (auto simp: key_parts_accepted_def add_finding_raises)

lemma trivy_vuln_raises_iff: "isl (trivy_vuln v st) \<longleftrightarrow> \<not> trivy_vuln_accepted v"
proof (cases v)
  case (JObj kvs)
  show ?thesis
    unfolding JObj trivy_vuln_def
    by (simp add: finish_raises severity_raises trivy_vuln_accepted_def field_def)
qed (simp_all add: trivy_vuln_def trivy_vuln_accepted_def)

lemma members_raises_iff:
  assumes body: "\<And>x st. isl (body x st) \<longleftrightarrow> \<not> P x"
    and strings: "\<And>s. \<not> P (JStr s)"
  shows "isl (case py_iter (case level of None \<Rightarrow> JArr [] | Some v \<Rightarrow> v) of
              Inl e \<Rightarrow> Inl e | Inr xs \<Rightarrow> for_each body xs st)
         \<longleftrightarrow> \<not> members_accepted P level"
proof (cases level)
  case None
  then show ?thesis by (simp add: members_accepted_def)
next
  case (Some v)
  note iff = for_each_raises_iff [where body = body and P = P and st = st, OF body]
  show ?thesis
  proof (cases v)
    case (JArr xs)
    with Some iff [of xs] show ?thesis
      by (simp add: members_accepted_def)
  next
    case (JStr s)
    show ?thesis
    proof (cases s)
      case Nil
      with Some JStr show ?thesis by (simp add: members_accepted_def)
    next
      case (Cons c cs)
      with Some JStr iff [of "map (\<lambda>c. JStr [c]) (c # cs)"] strings show ?thesis
        by (simp add: members_accepted_def)
    qed
  next
    case (JObj kvs)
    show ?thesis
    proof (cases kvs)
      case Nil
      with Some JObj show ?thesis by (simp add: members_accepted_def)
    next
      case (Cons kv rest)
      with Some JObj iff [of "map (\<lambda>kv. JStr (fst kv)) (kv # rest)"] strings show ?thesis
        by (simp add: members_accepted_def)
    qed
  qed (simp_all add: Some members_accepted_def)
qed

lemma trivy_result_raises_iff: "isl (trivy_result r st) \<longleftrightarrow> \<not> trivy_result_accepted r"
proof (cases r)
  case (JObj kvs)
  have "\<not> trivy_vuln_accepted (JStr s)" for s
    by (simp add: trivy_vuln_accepted_def)
  with trivy_vuln_raises_iff
  have "isl (case py_iter (case map_of kvs ''Vulnerabilities'' of None \<Rightarrow> JArr [] | Some v \<Rightarrow> v) of
              Inl e \<Rightarrow> Inl e | Inr xs \<Rightarrow> for_each trivy_vuln xs st)
         \<longleftrightarrow> \<not> members_accepted trivy_vuln_accepted (map_of kvs ''Vulnerabilities'')"
    by (rule members_raises_iff)
  then show ?thesis
    by (simp add: JObj trivy_result_def trivy_result_accepted_def)
qed (simp_all add: trivy_result_def trivy_result_accepted_def)

lemma extract_trivy_raises_iff: "isl (extract_trivy_vulns d) \<longleftrightarrow> \<not> trivy_accepted d"
proof (cases "truthy d")
  case False
  then show ?thesis by (simp add: extract_trivy_vulns_def trivy_accepted_def)
next
  case True
  show ?thesis
  proof (cases d)
    case (JObj kvs)
    have "\<not> trivy_result_accepted (JStr s)" for s
      by (simp add: trivy_result_accepted_def)
    with trivy_result_raises_iff
    have "isl (case py_iter (case map_of kvs ''Results'' of None \<Rightarrow> JArr [] | Some v \<Rightarrow> v) of
              Inl e \<Rightarrow> Inl e | Inr xs \<Rightarrow> for_each trivy_result xs ({}, []))
         \<longleftrightarrow> \<not> members_accepted trivy_result_accepted (map_of kvs ''Results'')"
      by (rule members_raises_iff)
    with True show ?thesis
      by (simp add: JObj extract_trivy_vulns_def trivy_accepted_def)
  qed (use True in \<open>simp_all add: extract_trivy_vulns_def trivy_accepted_def\<close>)
qed

lemma key_parts_accepted_empty:
  "key_parts_accepted (JStr []) p" "key_parts_accepted i (JStr [])"
  by (simp_all add: key_parts_accepted_def)

lemma grype_match_raises_iff: "isl (grype_match m st) \<longleftrightarrow> \<not> grype_match_accepted m"
proof (cases m)
  case (JObj kvs)
  show ?thesis
  proof (cases "map_of kvs ''vulnerability''")
    case vnone: None
    show ?thesis
    proof (cases "map_of kvs ''artifact''")
      case None
      with vnone show ?thesis
        unfolding JObj grype_match_def
        by (simp add: finish_raises severity_raises grype_match_accepted_def field_def
            absent_or_object_def absent_or_str_def key_parts_accepted_empty)
    next
      case (Some a)
      with vnone show ?thesis
        unfolding JObj grype_match_def
        by (cases a)
          (simp_all add: finish_raises severity_raises grype_match_accepted_def field_def
            absent_or_object_def absent_or_str_def key_parts_accepted_empty)
    qed
  next
    case vsome: (Some v)
    show ?thesis
    proof (cases v)
      case vobj: (JObj vkvs)
      show ?thesis
      proof (cases "map_of kvs ''artifact''")
        case None
        with vsome vobj show ?thesis
          unfolding JObj grype_match_def
          by (simp add: finish_raises severity_raises grype_match_accepted_def field_def
              absent_or_object_def key_parts_accepted_empty)
      next
        case (Some a)
        with vsome vobj show ?thesis
          unfolding JObj grype_match_def
          by (cases a)
            (simp_all add: finish_raises severity_raises grype_match_accepted_def field_def
              absent_or_object_def key_parts_accepted_empty)
      qed
    qed (use vsome in \<open>simp_all add: JObj grype_match_def grype_match_accepted_def
          absent_or_object_def\<close>)
  qed
qed (simp_all add: grype_match_def grype_match_accepted_def)

lemma extract_grype_raises_iff: "isl (extract_grype_vulns d) \<longleftrightarrow> \<not> grype_accepted d"
proof (cases "truthy d")
  case False
  then show ?thesis by (simp add: extract_grype_vulns_def grype_accepted_def)
next
  case True
  show ?thesis
  proof (cases d)
    case (JObj kvs)
    have "\<not> grype_match_accepted (JStr s)" for s
      by (simp add: grype_match_accepted_def)
    with grype_match_raises_iff
    have "isl (case py_iter (case map_of kvs ''matches'' of None \<Rightarrow> JArr [] | Some v \<Rightarrow> v) of
              Inl e \<Rightarrow> Inl e | Inr xs \<Rightarrow> for_each grype_match xs ({}, []))
         \<longleftrightarrow> \<not> members_accepted grype_match_accepted (map_of kvs ''matches'')"
      by (rule members_raises_iff)
    with True show ?thesis
      by (simp add: JObj extract_grype_vulns_def grype_accepted_def)
  qed (use True in \<open>simp_all add: extract_grype_vulns_def grype_accepted_def\<close>)
qed

text \<open>
  Claim C3, as the code has it. Each extractor returns a result exactly on the documents
  it accepts, and raises on every other document. A falsy document and a document
  without the top-level container give the empty result, and a Trivy result without its
  list of vulnerabilities adds nothing.
\<close>

theorem extraction_returns_exactly_when_accepted:
  "((\<exists>r. extract_trivy_vulns dt = Inr r) \<longleftrightarrow> trivy_accepted dt)
   \<and> ((\<exists>r. extract_grype_vulns dg = Inr r) \<longleftrightarrow> grype_accepted dg)
   \<and> (\<not> truthy d \<longrightarrow>
        extract_trivy_vulns d = Inr ({}, []) \<and> extract_grype_vulns d = Inr ({}, []))
   \<and> (map_of kvs ''Results'' = None \<longrightarrow> extract_trivy_vulns (JObj kvs) = Inr ({}, []))
   \<and> (map_of kvs ''matches'' = None \<longrightarrow> extract_grype_vulns (JObj kvs) = Inr ({}, []))
   \<and> (map_of kvs ''Vulnerabilities'' = None \<longrightarrow> trivy_result (JObj kvs) st = Inr st)"
proof (intro conjI impI)
  show "(\<exists>r. extract_trivy_vulns dt = Inr r) \<longleftrightarrow> trivy_accepted dt"
    unfolding returns_iff by (simp add: extract_trivy_raises_iff)
  show "(\<exists>r. extract_grype_vulns dg = Inr r) \<longleftrightarrow> grype_accepted dg"
    unfolding returns_iff by (simp add: extract_grype_raises_iff)
next
  assume "\<not> truthy d"
  then show "extract_trivy_vulns d = Inr ({}, [])" and "extract_grype_vulns d = Inr ({}, [])"
    by (simp_all add: extract_trivy_vulns_def extract_grype_vulns_def)
next
  assume "map_of kvs ''Results'' = None"
  then show "extract_trivy_vulns (JObj kvs) = Inr ({}, [])"
    by (simp add: extract_trivy_vulns_def)
next
  assume "map_of kvs ''matches'' = None"
  then show "extract_grype_vulns (JObj kvs) = Inr ({}, [])"
    by (simp add: extract_grype_vulns_def)
next
  assume "map_of kvs ''Vulnerabilities'' = None"
  then show "trivy_result (JObj kvs) st = Inr st"
    by (simp add: trivy_result_def)
qed

theorem extraction_returns_exactly_when_accepted_witness:
  "trivy_accepted odd_example
   \<and> extract_trivy_vulns odd_example = Inr ({(ANum 7, AStr ''zlib'')}, [(''LOW'', 1)])
   \<and> grype_accepted grype_example
   \<and> (\<exists>r. extract_grype_vulns grype_example = Inr r)
   \<and> \<not> trivy_accepted (JObj [(''Results'', JNull)])
   \<and> \<not> (\<exists>r. extract_trivy_vulns (JObj [(''Results'', JNull)]) = Inr r)
   \<and> \<not> truthy JNull
   \<and> extract_trivy_vulns JNull = Inr ({}, [])
   \<and> extract_grype_vulns JNull = Inr ({}, [])
   \<and> map_of [(''SchemaVersion'', JNum 2)] ''Results'' = None
   \<and> extract_trivy_vulns (JObj [(''SchemaVersion'', JNum 2)]) = Inr ({}, [])
   \<and> map_of [(''SchemaVersion'', JNum 2)] ''matches'' = None
   \<and> extract_grype_vulns (JObj [(''SchemaVersion'', JNum 2)]) = Inr ({}, [])
   \<and> map_of [(''SchemaVersion'', JNum 2)] ''Vulnerabilities'' = None
   \<and> trivy_result (JObj [(''SchemaVersion'', JNum 2)]) ({}, []) = Inr ({}, [])"
proof -
  have odd: "trivy_accepted odd_example"
    by code_simp
  have run: "extract_trivy_vulns odd_example = Inr ({(ANum 7, AStr ''zlib'')}, [(''LOW'', 1)])"
    by code_simp
  have grype: "grype_accepted grype_example"
    by code_simp
  have null: "\<not> trivy_accepted (JObj [(''Results'', JNull)])"
    by code_simp
  from extraction_returns_exactly_when_accepted
      [of grype_example grype_example JNull "[(''SchemaVersion'', JNum 2)]" "({}, [])"]
    extraction_returns_exactly_when_accepted
      [of "JObj [(''Results'', JNull)]" grype_example JNull "[(''SchemaVersion'', JNum 2)]"
          "({}, [])"]
    odd run grype null
  show ?thesis
    by simp
qed

text \<open>
  Claim C3 as stated fails: a document whose \<^verbatim>\<open>Results\<close> is \<^verbatim>\<open>null\<close> makes the Trivy
  extractor iterate over \<^verbatim>\<open>None\<close>, and a match whose severity is \<^verbatim>\<open>null\<close> makes the
  Grype extractor call \<^verbatim>\<open>None.upper()\<close>.
\<close>

theorem extraction_raises_on_null_level:
  "extract_trivy_vulns (JObj [(''Results'', JNull)]) = Inl TypeError
   \<and> extract_grype_vulns
       (JObj [(''matches'', JArr [JObj [
          (''vulnerability'', JObj [(''id'', JStr ''CVE-2021-1''), (''severity'', JNull)]),
          (''artifact'', JObj [(''name'', JStr ''openssl'')])]])])
     = Inl AttributeError"
  by (simp add: extract_trivy_vulns_def extract_grype_vulns_def grype_match_def)

text \<open>
  Claim C4, as the code has it. When the scanner process was started and has exited,
  whatever its exit status: if its standard output is empty or is rejected by
  \<^verbatim>\<open>json.loads\<close> with \<^verbatim>\<open>JSONDecodeError\<close>, the adapter returns \<^verbatim>\<open>{}\<close> and raises nothing;
  if its standard output parses, the adapter returns the parsed document.
\<close>

theorem adapter_returns_empty_on_bad_output:
  "(subprocess_run env [''trivy'', ''image'', ''--format'', ''json'', ''--quiet'', img] = Inr p
      \<and> (stdout p = [] \<or> json_loads env (stdout p) = Inl JSONDecodeError)
    \<longrightarrow> scan_with_trivy env img = Inr (JObj []))
   \<and> (subprocess_run env [''grype'', img, ''-o'', ''json'', ''-q''] = Inr q
      \<and> (stdout q = [] \<or> json_loads env (stdout q) = Inl JSONDecodeError)
    \<longrightarrow> scan_with_grype env img = Inr (JObj []))
   \<and> (subprocess_run env [''trivy'', ''image'', ''--format'', ''json'', ''--quiet'', img] = Inr p
      \<and> stdout p \<noteq> [] \<and> json_loads env (stdout p) = Inr d
    \<longrightarrow> scan_with_trivy env img = Inr d)
   \<and> (subprocess_run env [''grype'', img, ''-o'', ''json'', ''-q''] = Inr q
      \<and> stdout q \<noteq> [] \<and> json_loads env (stdout q) = Inr d'
    \<longrightarrow> scan_with_grype env img = Inr d')"
  by (auto simp: scan_with_trivy_def scan_with_grype_def run_and_parse_def
      except_JSONDecodeError_def)

theorem adapter_returns_empty_on_bad_output_witness:
  "subprocess_run silent_failure [''trivy'', ''image'', ''--format'', ''json'', ''--quiet'', ''nginx:latest'']
     = Inr \<lparr>returncode = 1, stdout = [], stderr = ''cannot pull image''\<rparr>
   \<and> scan_with_trivy silent_failure ''nginx:latest'' = Inr (JObj [])
   \<and> subprocess_run garbage_output [''grype'', ''nginx:latest'', ''-o'', ''json'', ''-q'']
     = Inr \<lparr>returncode = 0, stdout = ''usage: scanner'', stderr = []\<rparr>
   \<and> json_loads garbage_output ''usage: scanner'' = Inl JSONDecodeError
   \<and> scan_with_grype garbage_output ''nginx:latest'' = Inr (JObj [])
   \<and> subprocess_run reports_finding [''trivy'', ''image'', ''--format'', ''json'', ''--quiet'', ''nginx:latest'']
     = Inr \<lparr>returncode = 1, stdout = report_text, stderr = []\<rparr>
   \<and> report_text \<noteq> []
   \<and> json_loads reports_finding report_text = Inr report_document
   \<and> scan_with_trivy reports_finding ''nginx:latest'' = Inr report_document
   \<and> scan_with_grype reports_finding ''nginx:latest'' = Inr report_document"
  using adapter_returns_empty_on_bad_output
    [of silent_failure "''nginx:latest''"
        "\<lparr>returncode = 1, stdout = [], stderr = ''cannot pull image''\<rparr>"
        "\<lparr>returncode = 1, stdout = [], stderr = ''cannot pull image''\<rparr>"]
    adapter_returns_empty_on_bad_output
    [of garbage_output "''nginx:latest''"
        "\<lparr>returncode = 0, stdout = ''usage: scanner'', stderr = []\<rparr>"
        "\<lparr>returncode = 0, stdout = ''usage: scanner'', stderr = []\<rparr>"]
    adapter_returns_empty_on_bad_output
    [of reports_finding "''nginx:latest''"
        "\<lparr>returncode = 1, stdout = report_text, stderr = []\<rparr>"
        "\<lparr>returncode = 1, stdout = report_text, stderr = []\<rparr>"
        report_document report_document]
  by (simp add: silent_failure_def garbage_output_def reports_finding_def report_text_def)

text \<open>
  Claim C4 as stated fails in two ways. A scanner that exits with a non-zero status and
  prints a report has its report returned, not \<^verbatim>\<open>{}\<close>: the exit status is ignored. And
  for a missing binary \<^verbatim>\<open>subprocess.run\<close> raises \<^verbatim>\<open>FileNotFoundError\<close>, which the
  adapter's only handler (for \<^verbatim>\<open>JSONDecodeError\<close>) does not catch.
\<close>

theorem adapter_not_always_empty:
  "scan_with_trivy reports_finding ''nginx:latest'' = Inr report_document
   \<and> report_document \<noteq> JObj []
   \<and> scan_with_trivy missing_binary ''nginx:latest'' = Inl FileNotFoundError
   \<and> scan_with_grype missing_binary ''nginx:latest'' = Inl FileNotFoundError"
  by (simp add: scan_with_trivy_def scan_with_grype_def run_and_parse_def
      except_JSONDecodeError_def missing_binary_def reports_finding_def report_text_def
      report_document_def)

section \<open>Properties of the comparator\<close>

lemma inj_string_key: "inj string_key"
  by (auto simp: inj_on_def string_key_def prod_eq_iff)

lemma string_key_le: "string_key a \<le> string_key b \<longleftrightarrow> a \<le> b"
  by (auto simp: string_key_def less_eq_prod_def less_eq_atom_def less_atom_def)

lemma string_keys_orderable: "key_orderable (string_key a) (string_key b)"
  by (simp add: string_key_def)

lemma sorted_map_string_key: "sorted (map string_key xs) = sorted xs"
  by (induction xs) (auto simp: string_key_le)

lemma sorted_list_of_string_keys:
  assumes "finite S"
  shows "sorted_list_of_set (string_key ` S) = map string_key (sorted_list_of_set S)"
proof (rule sorted_distinct_set_unique)
  show "sorted (map string_key (sorted_list_of_set S))"
    by (simp add: sorted_map_string_key)
  show "distinct (map string_key (sorted_list_of_set S))"
    by (simp add: distinct_map inj_on_subset [OF inj_string_key])
  show "set (sorted_list_of_set (string_key ` S)) = set (map string_key (sorted_list_of_set S))"
    using assms by simp
qed simp_all

lemma py_sorted_string_keys:
  "finite S \<Longrightarrow> py_sorted (string_key ` S) = Inr (map string_key (sorted_list_of_set S))"
  by (simp add: py_sorted_def string_keys_orderable sorted_list_of_string_keys)

lemma py_sorted_set:
  "finite S \<Longrightarrow> py_sorted S = Inr xs \<Longrightarrow> set xs = S \<and> distinct xs \<and> sorted xs"
  by (auto simp: py_sorted_def split: if_splits)

text \<open>
  Claim C1. Whenever \<^verbatim>\<open>compare_results\<close> returns, the three detail lists hold exactly
  the keys of \<^verbatim>\<open>trivy_vulns - grype_vulns\<close>, \<^verbatim>\<open>grype_vulns - trivy_vulns\<close> and
  \<^verbatim>\<open>trivy_vulns & grype_vulns\<close>; they are pairwise disjoint and together are the union of
  the two key sets.
\<close>

theorem compare_results_partition:
  assumes "finite trivy_vulns" and "finite grype_vulns"
    and "compare_results img trivy_vulns grype_vulns trivy_severity grype_severity = Inr c"
  shows "set (only_trivy (details c)) = trivy_vulns - grype_vulns
    \<and> set (only_grype (details c)) = grype_vulns - trivy_vulns
    \<and> set (common (details c)) = trivy_vulns \<inter> grype_vulns
    \<and> set (only_trivy (details c)) \<inter> set (only_grype (details c)) = {}
    \<and> set (only_trivy (details c)) \<inter> set (common (details c)) = {}
    \<and> set (only_grype (details c)) \<inter> set (common (details c)) = {}
    \<and> set (only_trivy (details c)) \<union> set (only_grype (details c)) \<union> set (common (details c))
        = trivy_vulns \<union> grype_vulns"
proof -
  from assms(3) obtain st sg sb where
    st: "py_sorted (trivy_vulns - grype_vulns) = Inr st"
    and sg: "py_sorted (grype_vulns - trivy_vulns) = Inr sg"
    and sb: "py_sorted (trivy_vulns \<inter> grype_vulns) = Inr sb"
    and c: "details c = \<lparr>only_trivy = st, only_grype = sg, common = sb\<rparr>"
    by (auto simp: compare_results_def Let_def split: sum.splits)
  have "set st = trivy_vulns - grype_vulns"
    using py_sorted_set [OF _ st] assms(1) by simp
  moreover have "set sg = grype_vulns - trivy_vulns"
    using py_sorted_set [OF _ sg] assms(2) by simp
  moreover have "set sb = trivy_vulns \<inter> grype_vulns"
    using py_sorted_set [OF _ sb] assms(1) by simp
  ultimately show ?thesis
    unfolding c by auto
qed

theorem compare_results_partition_witness:
  "finite {(AStr ''CVE-2021-1'', AStr ''openssl''), (AStr ''CVE-2020-7'', AStr ''bash'')}
   \<and> finite {(AStr ''CVE-2021-1'', AStr ''openssl''), (AStr ''CVE-2022-2'', AStr ''zlib'')}
   \<and> compare_results ''x''
        {(AStr ''CVE-2021-1'', AStr ''openssl''), (AStr ''CVE-2020-7'', AStr ''bash'')}
        {(AStr ''CVE-2021-1'', AStr ''openssl''), (AStr ''CVE-2022-2'', AStr ''zlib'')}
        [(''CRITICAL'', 2)] [(''CRITICAL'', 1), (''HIGH'', 1)]
      = Inr \<lparr>image' = ''x'',
             trivy = \<lparr>total' = 2, severity = [(''CRITICAL'', 2)]\<rparr>,
             grype = \<lparr>total' = 2, severity = [(''CRITICAL'', 1), (''HIGH'', 1)]\<rparr>,
             comparison = \<lparr>common_count = 1, only_trivy_count = 1, only_grype_count = 1\<rparr>,
             details = \<lparr>only_trivy = [(AStr ''CVE-2020-7'', AStr ''bash'')],
                        only_grype = [(AStr ''CVE-2022-2'', AStr ''zlib'')],
                        common = [(AStr ''CVE-2021-1'', AStr ''openssl'')]\<rparr>\<rparr>
   \<and> set [(AStr ''CVE-2020-7'', AStr ''bash'')] \<union> set [(AStr ''CVE-2022-2'', AStr ''zlib'')]
        \<union> set [(AStr ''CVE-2021-1'', AStr ''openssl'')]
      = {(AStr ''CVE-2021-1'', AStr ''openssl''), (AStr ''CVE-2020-7'', AStr ''bash'')}
        \<union> {(AStr ''CVE-2021-1'', AStr ''openssl''), (AStr ''CVE-2022-2'', AStr ''zlib'')}"
proof -
  have fin: "finite {(AStr ''CVE-2021-1'', AStr ''openssl''), (AStr ''CVE-2020-7'', AStr ''bash'')}"
    "finite {(AStr ''CVE-2021-1'', AStr ''openssl''), (AStr ''CVE-2022-2'', AStr ''zlib'')}"
    by simp_all
  have run: "compare_results ''x''
        {(AStr ''CVE-2021-1'', AStr ''openssl''), (AStr ''CVE-2020-7'', AStr ''bash'')}
        {(AStr ''CVE-2021-1'', AStr ''openssl''), (AStr ''CVE-2022-2'', AStr ''zlib'')}
        [(''CRITICAL'', 2)] [(''CRITICAL'', 1), (''HIGH'', 1)]
      = Inr \<lparr>image' = ''x'',
             trivy = \<lparr>total' = 2, severity = [(''CRITICAL'', 2)]\<rparr>,
             grype = \<lparr>total' = 2, severity = [(''CRITICAL'', 1), (''HIGH'', 1)]\<rparr>,
             comparison = \<lparr>common_count = 1, only_trivy_count = 1, only_grype_count = 1\<rparr>,
             details = \<lparr>only_trivy = [(AStr ''CVE-2020-7'', AStr ''bash'')],
                        only_grype = [(AStr ''CVE-2022-2'', AStr ''zlib'')],
                        common = [(AStr ''CVE-2021-1'', AStr ''openssl'')]\<rparr>\<rparr>"
    by (simp add: compare_results_def py_sorted_def)
  from compare_results_partition [OF fin run] fin run show ?thesis
    by simp
qed

text \<open>
  Claim C8. On two finite sets of keys whose members are pairs of strings the comparator
  returns, and each detail list is the strictly increasing enumeration of its set in the
  order on pairs of strings that compares the vulnerability ids first and the package
  names on equal ids, strings being compared lexicographically by character code. On
  two empty sets every list is empty and every count is zero.
\<close>

theorem compare_results_sorted:
  assumes "finite A" and "finite B"
  shows "(\<exists>c. compare_results img (string_key ` A) (string_key ` B) ts gs = Inr c
      \<and> only_trivy (details c) = map string_key (sorted_list_of_set (A - B))
      \<and> only_grype (details c) = map string_key (sorted_list_of_set (B - A))
      \<and> common (details c) = map string_key (sorted_list_of_set (A \<inter> B)))
    \<and> sorted_wrt (\<lambda>k l. fst k < fst l \<or> (fst k = fst l \<and> snd k < snd l))
        (sorted_list_of_set (A - B))
    \<and> sorted_wrt (\<lambda>k l. fst k < fst l \<or> (fst k = fst l \<and> snd k < snd l))
        (sorted_list_of_set (B - A))
    \<and> sorted_wrt (\<lambda>k l. fst k < fst l \<or> (fst k = fst l \<and> snd k < snd l))
        (sorted_list_of_set (A \<inter> B))
    \<and> (\<exists>c. compare_results img {} {} ts gs = Inr c
         \<and> details c = \<lparr>only_trivy = [], only_grype = [], common = []\<rparr>
         \<and> comparison c = \<lparr>common_count = 0, only_trivy_count = 0, only_grype_count = 0\<rparr>)"
proof -
  have lex: "sorted_wrt (\<lambda>k l. fst k < fst l \<or> (fst k = fst l \<and> snd k < snd l))
      (sorted_list_of_set S)" for S :: "(string \<times> string) set"
  proof -
    have "sorted_wrt (<) (sorted_list_of_set S)"
      by (simp add: strict_sorted_iff)
    then show ?thesis
      by (rule sorted_wrt_mono_rel [rotated]) (auto simp: less_prod_def)
  qed
  have d1: "string_key ` A - string_key ` B = string_key ` (A - B)"
    by (simp add: image_set_diff inj_string_key)
  have d2: "string_key ` B - string_key ` A = string_key ` (B - A)"
    by (simp add: image_set_diff inj_string_key)
  have d3: "string_key ` A \<inter> string_key ` B = string_key ` (A \<inter> B)"
    by (simp add: image_Int inj_string_key)
  have "\<exists>c. compare_results img (string_key ` A) (string_key ` B) ts gs = Inr c
      \<and> only_trivy (details c) = map string_key (sorted_list_of_set (A - B))
      \<and> only_grype (details c) = map string_key (sorted_list_of_set (B - A))
      \<and> common (details c) = map string_key (sorted_list_of_set (A \<inter> B))"
    using assms unfolding compare_results_def Let_def d1 d2 d3
    by (simp add: py_sorted_string_keys)
  moreover have "\<exists>c. compare_results img {} {} ts gs = Inr c
         \<and> details c = \<lparr>only_trivy = [], only_grype = [], common = []\<rparr>
         \<and> comparison c = \<lparr>common_count = 0, only_trivy_count = 0, only_grype_count = 0\<rparr>"
    by (simp add: compare_results_def py_sorted_def)
  ultimately show ?thesis
    using lex by blast
qed

theorem compare_results_sorted_witness:
  "finite {(''CVE-2021-1'', ''openssl''), (''CVE-2021-1'', ''bash''), (''CVE-2020-7'', ''zlib'')}
   \<and> finite {(''CVE-2022-2'', ''zlib'')}
   \<and> compare_results ''x''
        (string_key ` {(''CVE-2021-1'', ''openssl''), (''CVE-2021-1'', ''bash''),
                       (''CVE-2020-7'', ''zlib'')})
        (string_key ` {(''CVE-2022-2'', ''zlib'')}) [] []
      = Inr \<lparr>image' = ''x'',
             trivy = \<lparr>total' = 3, severity = []\<rparr>,
             grype = \<lparr>total' = 1, severity = []\<rparr>,
             comparison = \<lparr>common_count = 0, only_trivy_count = 3, only_grype_count = 1\<rparr>,
             details = \<lparr>only_trivy = [(AStr ''CVE-2020-7'', AStr ''zlib''),
                                       (AStr ''CVE-2021-1'', AStr ''bash''),
                                       (AStr ''CVE-2021-1'', AStr ''openssl'')],
                        only_grype = [(AStr ''CVE-2022-2'', AStr ''zlib'')],
                        common = []\<rparr>\<rparr>
   \<and> (\<exists>c. compare_results ''x''
        (string_key ` {(''CVE-2021-1'', ''openssl''), (''CVE-2021-1'', ''bash''),
                       (''CVE-2020-7'', ''zlib'')})
        (string_key ` {(''CVE-2022-2'', ''zlib'')}) [] [] = Inr c
      \<and> only_trivy (details c) = map string_key (sorted_list_of_set
          ({(''CVE-2021-1'', ''openssl''), (''CVE-2021-1'', ''bash''), (''CVE-2020-7'', ''zlib'')}
            - {(''CVE-2022-2'', ''zlib'')})))"
proof -
  have fin: "finite {(''CVE-2021-1'', ''openssl''), (''CVE-2021-1'', ''bash''), (''CVE-2020-7'', ''zlib'')}"
    "finite {(''CVE-2022-2'', ''zlib'')}"
    by simp_all
  have run: "compare_results ''x''
        (string_key ` {(''CVE-2021-1'', ''openssl''), (''CVE-2021-1'', ''bash''),
                       (''CVE-2020-7'', ''zlib'')})
        (string_key ` {(''CVE-2022-2'', ''zlib'')}) [] []
      = Inr \<lparr>image' = ''x'',
             trivy = \<lparr>total' = 3, severity = []\<rparr>,
             grype = \<lparr>total' = 1, severity = []\<rparr>,
             comparison = \<lparr>common_count = 0, only_trivy_count = 3, only_grype_count = 1\<rparr>,
             details = \<lparr>only_trivy = [(AStr ''CVE-2020-7'', AStr ''zlib''),
                                       (AStr ''CVE-2021-1'', AStr ''bash''),
                                       (AStr ''CVE-2021-1'', AStr ''openssl'')],
                        only_grype = [(AStr ''CVE-2022-2'', AStr ''zlib'')],
                        common = []\<rparr>\<rparr>"
    by (simp add: compare_results_def py_sorted_def string_key_def
        less_eq_atom_def less_atom_def)
  from compare_results_sorted [OF fin, of "''x''" "[]" "[]"] fin run show ?thesis
    by blast
qed

section \<open>Properties of the iteration over findings\<close>

lemma for_each_append:
  "for_each body (xs @ ys) st =
     (case for_each body xs st of Inl e \<Rightarrow> Inl e | Inr st' \<Rightarrow> for_each body ys st')"
  by (induction xs arbitrary: st) (auto split: sum.splits)

lemma for_each_invariant:
  assumes "\<And>x st st'. I st \<Longrightarrow> body x st = Inr st' \<Longrightarrow> I st'"
    and "I st" and "for_each body xs st = Inr r"
  shows "I r"
  using assms(2,3)
proof (induction xs arbitrary: st)
  case Nil
  then show ?case by simp
next
  case (Cons x xs)
  from Cons.prems(2) obtain st1 where x: "body x st = Inr st1"
    and rest: "for_each body xs st1 = Inr r"
    by (auto split: sum.splits)
  have "I st1"
    using assms(1) [OF Cons.prems(1) x] .
  then show ?case
    using rest by (rule Cons.IH)
qed

lemma for_each_filter:
  assumes "\<And>x st st'. \<not> P x \<Longrightarrow> body x st = Inr st' \<Longrightarrow> st' = st"
    and "for_each body xs st = Inr r"
  shows "for_each body (filter P xs) st = Inr r"
  using assms(2)
proof (induction xs arbitrary: st)
  case Nil
  then show ?case by simp
next
  case (Cons x xs)
  from Cons.prems obtain st1 where x: "body x st = Inr st1"
    and rest: "for_each body xs st1 = Inr r"
    by (auto split: sum.splits)
  show ?case
  proof (cases "P x")
    case True
    with x Cons.IH [OF rest] show ?thesis by simp
  next
    case False
    with assms(1) x have "st1 = st" by blast
    with False Cons.IH [OF rest] show ?thesis by simp
  qed
qed

lemma trivy_vuln_step:
  assumes "trivy_vuln v st = Inr st'"
  shows "if trivy_qualifies v
         then \<exists>k l. trivy_key v = Inr k \<and> trivy_label v = Inr l
                \<and> st' = (insert k (fst st), counter_add l 1 (snd st))
         else st' = st"
  using assms
  by (auto simp: trivy_vuln_def trivy_qualifies_def both_nonempty_def trivy_key_def key_of_def
      trivy_label_def trivy_id_def trivy_pkg_def add_finding_def
      split: sum.splits if_splits)

lemma grype_match_step:
  assumes "grype_match m st = Inr st'"
  shows "if grype_qualifies m
         then \<exists>k l. grype_key m = Inr k \<and> grype_label m = Inr l
                \<and> st' = (insert k (fst st), counter_add l 1 (snd st))
         else st' = st"
  using assms
  by (auto simp: grype_match_def grype_qualifies_def both_nonempty_def grype_key_def key_of_def
      grype_label_def grype_id_def grype_pkg_def add_finding_def
      split: sum.splits if_splits)

lemma trivy_result_flat:
  "trivy_result result st = Inr st' \<Longrightarrow> for_each trivy_vuln (trivy_result_findings result) st = Inr st'"
  by (auto simp: trivy_result_def trivy_result_findings_def split: sum.splits)

lemma trivy_results_flat:
  "for_each trivy_result rs st = Inr r
   \<Longrightarrow> for_each trivy_vuln (concat (map trivy_result_findings rs)) st = Inr r"
proof (induction rs arbitrary: st)
  case Nil
  then show ?case by simp
next
  case (Cons x xs)
  from Cons.prems obtain st1 where x: "trivy_result x st = Inr st1"
    and rest: "for_each trivy_result xs st1 = Inr r"
    by (auto split: sum.splits)
  show ?case
    using trivy_result_flat [OF x] Cons.IH [OF rest] by (simp add: for_each_append)
qed

lemma extract_trivy_flat:
  assumes "extract_trivy_vulns d = Inr r"
  shows "for_each trivy_vuln (trivy_findings d) ({}, []) = Inr r"
proof (cases "truthy d")
  case False
  with assms show ?thesis
    by (simp add: extract_trivy_vulns_def trivy_findings_def)
next
  case True
  with assms obtain rs rlist where "py_get d ''Results'' (JArr []) = Inr rs"
    and "py_iter rs = Inr rlist" and "for_each trivy_result rlist ({}, []) = Inr r"
    by (auto simp: extract_trivy_vulns_def split: sum.splits)
  with True show ?thesis
    by (simp add: trivy_findings_def trivy_results_flat)
qed

lemma extract_grype_flat:
  assumes "extract_grype_vulns d = Inr r"
  shows "for_each grype_match (grype_findings d) ({}, []) = Inr r"
  using assms
  by (auto simp: extract_grype_vulns_def grype_findings_def split: sum.splits if_splits)

section \<open>Dropped findings and histogram counts\<close>

lemma hashable_nonempty: "truthy j \<Longrightarrow> py_hashable j = Inr a \<Longrightarrow> atom_nonempty a"
  by (cases j) auto

lemma key_of_nonempty:
  assumes "both_nonempty i p" and "key_of i p = Inr k"
  shows "atom_nonempty (fst k) \<and> atom_nonempty (snd k)"
  using assms
  by (auto simp: both_nonempty_def key_of_def py_key_def hashable_nonempty split: sum.splits)

lemma counter_total_add: "counter_total (counter_add k n c) = counter_total c + n"
  by (induction c) (auto simp: counter_total_def)

lemma counter_get_add:
  "counter_get (counter_add k n c) l = counter_get c l + (if k = l then n else 0)"
  by (induction c) (auto simp: counter_get_def)

lemma loop_keys_nonempty:
  assumes step: "\<And>x st st'. body x st = Inr st' \<Longrightarrow>
      (if Q x then \<exists>k l. K x = Inr k \<and> L x = Inr l
                    \<and> st' = (insert k (fst st), counter_add l 1 (snd st))
       else st' = st)"
    and nonempty: "\<And>x k. Q x \<Longrightarrow> K x = Inr k \<Longrightarrow> atom_nonempty (fst k) \<and> atom_nonempty (snd k)"
    and run: "for_each body xs ({}, []) = Inr r"
  shows "\<forall>k\<in>fst r. atom_nonempty (fst k) \<and> atom_nonempty (snd k)"
proof (rule for_each_invariant [where body = body and xs = xs and st = "({}, [])"])
  fix x st st'
  assume inv: "\<forall>k\<in>fst st. atom_nonempty (fst k) \<and> atom_nonempty (snd k)"
    and x: "body x st = Inr st'"
  show "\<forall>k\<in>fst st'. atom_nonempty (fst k) \<and> atom_nonempty (snd k)"
  proof (cases "Q x")
    case True
    with step [OF x] obtain k l where k: "K x = Inr k"
      and st': "st' = (insert k (fst st), counter_add l 1 (snd st))"
      by auto
    from nonempty [OF True k] inv show ?thesis
      unfolding st' by simp
  next
    case False
    with step [OF x] inv show ?thesis by simp
  qed
qed (simp, rule run)

lemma loop_counts:
  assumes step: "\<And>x st st'. body x st = Inr st' \<Longrightarrow>
      (if Q x then \<exists>k l. K x = Inr k \<and> L x = Inr l
                    \<and> st' = (insert k (fst st), counter_add l 1 (snd st))
       else st' = st)"
    and run: "for_each body xs st = Inr r"
  shows "fst r = fst st \<union> {k. \<exists>x\<in>set xs. Q x \<and> K x = Inr k}
    \<and> counter_total (snd r) = counter_total (snd st) + length (filter Q xs)
    \<and> (\<forall>l. counter_get (snd r) l
           = counter_get (snd st) l + length (filter (\<lambda>x. Q x \<and> L x = Inr l) xs))"
  using run
proof (induction xs arbitrary: st)
  case Nil
  then show ?case by simp
next
  case (Cons x xs)
  from Cons.prems obtain st1 where x: "body x st = Inr st1"
    and rest: "for_each body xs st1 = Inr r"
    by (auto split: sum.splits)
  note IH = Cons.IH [OF rest]
  show ?case
  proof (cases "Q x")
    case True
    with step [OF x] obtain k l where k: "K x = Inr k" and l: "L x = Inr l"
      and st1: "st1 = (insert k (fst st), counter_add l 1 (snd st))"
      by auto
    have 1: "fst r = fst st \<union> {k. \<exists>y\<in>set (x # xs). Q y \<and> K y = Inr k}"
      using IH True k unfolding st1 by auto
    have 2: "counter_total (snd r) = counter_total (snd st) + length (filter Q (x # xs))"
      using IH True unfolding st1 by (simp add: counter_total_add)
    have 3: "counter_get (snd r) m
           = counter_get (snd st) m + length (filter (\<lambda>y. Q y \<and> L y = Inr m) (x # xs))" for m
      using IH True l unfolding st1 by (simp add: counter_get_add)
    from 1 2 3 show ?thesis by blast
  next
    case False
    with step [OF x] have "st1 = st" by simp
    with IH False show ?thesis by simp
  qed
qed

lemma loop_card:
  assumes step: "\<And>x st st'. body x st = Inr st' \<Longrightarrow>
      (if Q x then \<exists>k l. K x = Inr k \<and> L x = Inr l
                    \<and> st' = (insert k (fst st), counter_add l 1 (snd st))
       else st' = st)"
    and run: "for_each body xs ({}, []) = Inr r"
  shows "finite (fst r) \<and> card (fst r) \<le> counter_total (snd r)"
proof (rule for_each_invariant [where body = body and xs = xs and st = "({}, [])"])
  fix x st st'
  assume inv: "finite (fst st) \<and> card (fst st) \<le> counter_total (snd st)"
    and x: "body x st = Inr st'"
  show "finite (fst st') \<and> card (fst st') \<le> counter_total (snd st')"
  proof (cases "Q x")
    case True
    with step [OF x] obtain k l where 
      st': "st' = (insert k (fst st), counter_add l 1 (snd st))"
      by auto
    have "card (insert k (fst st)) \<le> card (fst st) + 1"
      using inv by (simp add: card_insert_if)
    with inv show ?thesis
      unfolding st' by (simp add: counter_total_add)
  next
    case False
    with step [OF x] inv show ?thesis by simp
  qed
qed (simp add: counter_total_def, rule run)

lemma trivy_key_nonempty:
  "trivy_qualifies v \<Longrightarrow> trivy_key v = Inr k \<Longrightarrow> atom_nonempty (fst k) \<and> atom_nonempty (snd k)"
  unfolding trivy_qualifies_def trivy_key_def by (rule key_of_nonempty)

lemma grype_key_nonempty:
  "grype_qualifies m \<Longrightarrow> grype_key m = Inr k \<Longrightarrow> atom_nonempty (fst k) \<and> atom_nonempty (snd k)"
  unfolding grype_qualifies_def grype_key_def by (rule key_of_nonempty)

lemma trivy_unqualified:
  "trivy_id v = Inr (JStr []) \<or> trivy_pkg v = Inr (JStr []) \<Longrightarrow> \<not> trivy_qualifies v"
  by (auto simp: trivy_qualifies_def both_nonempty_def split: sum.splits)

lemma grype_unqualified:
  "grype_id m = Inr (JStr []) \<or> grype_pkg m = Inr (JStr []) \<Longrightarrow> \<not> grype_qualifies m"
  by (auto simp: grype_qualifies_def both_nonempty_def split: sum.splits)

text \<open>
  Claim C5. In the result of either extractor every key has a non-empty id and a
  non-empty package name, and the result is the one obtained from the qualifying
  findings alone. A finding whose id or package name is empty or absent (read as the
  empty string) leaves both the key set and the histogram as they were.
\<close>

theorem empty_fields_dropped:
  "(extract_trivy_vulns d = Inr (vulns, sev) \<longrightarrow>
      (\<forall>k\<in>vulns. atom_nonempty (fst k) \<and> atom_nonempty (snd k))
      \<and> for_each trivy_vuln (filter trivy_qualifies (trivy_findings d)) ({}, [])
          = Inr (vulns, sev))
   \<and> (extract_grype_vulns d' = Inr (vulns', sev') \<longrightarrow>
      (\<forall>k\<in>vulns'. atom_nonempty (fst k) \<and> atom_nonempty (snd k))
      \<and> for_each grype_match (filter grype_qualifies (grype_findings d')) ({}, [])
          = Inr (vulns', sev'))
   \<and> ((trivy_id v = Inr (JStr []) \<or> trivy_pkg v = Inr (JStr []))
        \<and> trivy_vuln v st = Inr st' \<longrightarrow> st' = st)
   \<and> ((grype_id m = Inr (JStr []) \<or> grype_pkg m = Inr (JStr []))
        \<and> grype_match m st = Inr st'' \<longrightarrow> st'' = st)"
proof (intro conjI impI)
  assume run: "extract_trivy_vulns d = Inr (vulns, sev)"
  have "\<forall>k\<in>fst (vulns, sev). atom_nonempty (fst k) \<and> atom_nonempty (snd k)"
    using trivy_vuln_step trivy_key_nonempty extract_trivy_flat [OF run]
    by (rule loop_keys_nonempty)
  then show "\<forall>k\<in>vulns. atom_nonempty (fst k) \<and> atom_nonempty (snd k)"
    by simp
  show "for_each trivy_vuln (filter trivy_qualifies (trivy_findings d)) ({}, []) = Inr (vulns, sev)"
  proof (rule for_each_filter [OF _ extract_trivy_flat [OF run]])
    fix x st st'
    assume "\<not> trivy_qualifies x" and "trivy_vuln x st = Inr st'"
    then show "st' = st"
      using trivy_vuln_step [of x st st'] by simp
  qed
next
  assume run: "extract_grype_vulns d' = Inr (vulns', sev')"
  have "\<forall>k\<in>fst (vulns', sev'). atom_nonempty (fst k) \<and> atom_nonempty (snd k)"
    using grype_match_step grype_key_nonempty extract_grype_flat [OF run]
    by (rule loop_keys_nonempty)
  then show "\<forall>k\<in>vulns'. atom_nonempty (fst k) \<and> atom_nonempty (snd k)"
    by simp
  show "for_each grype_match (filter grype_qualifies (grype_findings d')) ({}, []) = Inr (vulns', sev')"
  proof (rule for_each_filter [OF _ extract_grype_flat [OF run]])
    fix x st st'
    assume "\<not> grype_qualifies x" and "grype_match x st = Inr st'"
    then show "st' = st"
      using grype_match_step [of x st st'] by simp
  qed
next
  assume "(trivy_id v = Inr (JStr []) \<or> trivy_pkg v = Inr (JStr [])) \<and> trivy_vuln v st = Inr st'"
  then show "st' = st"
    using trivy_vuln_step [of v st st'] trivy_unqualified [of v] by simp
next
  assume "(grype_id m = Inr (JStr []) \<or> grype_pkg m = Inr (JStr [])) \<and> grype_match m st = Inr st''"
  then show "st'' = st"
    using grype_match_step [of m st st''] grype_unqualified [of m] by simp
qed

theorem empty_fields_dropped_witness:
  "extract_trivy_vulns trivy_example
     = Inr ({(AStr ''CVE-2021-1'', AStr ''openssl''), (AStr ''CVE-2022-2'', AStr ''zlib'')},
            [(''HIGH'', 2), (''UNKNOWN'', 1)])
   \<and> for_each trivy_vuln (filter trivy_qualifies (trivy_findings trivy_example)) ({}, [])
     = Inr ({(AStr ''CVE-2021-1'', AStr ''openssl''), (AStr ''CVE-2022-2'', AStr ''zlib'')},
            [(''HIGH'', 2), (''UNKNOWN'', 1)])
   \<and> extract_grype_vulns grype_example
     = Inr ({(AStr ''CVE-2021-1'', AStr ''openssl''), (AStr ''CVE-2022-2'', AStr ''zlib'')},
            [(''CRITICAL'', 2), (''UNKNOWN'', 1)])
   \<and> for_each grype_match (filter grype_qualifies (grype_findings grype_example)) ({}, [])
     = Inr ({(AStr ''CVE-2021-1'', AStr ''openssl''), (AStr ''CVE-2022-2'', AStr ''zlib'')},
            [(''CRITICAL'', 2), (''UNKNOWN'', 1)])
   \<and> trivy_id (JObj [(''VulnerabilityID'', JStr []), (''PkgName'', JStr ''openssl''),
                     (''Severity'', JStr ''high'')]) = Inr (JStr [])
   \<and> trivy_vuln (JObj [(''VulnerabilityID'', JStr []), (''PkgName'', JStr ''openssl''),
                       (''Severity'', JStr ''high'')])
        ({(AStr ''CVE-2022-2'', AStr ''zlib'')}, [(''LOW'', 1)])
     = Inr ({(AStr ''CVE-2022-2'', AStr ''zlib'')}, [(''LOW'', 1)])
   \<and> grype_pkg (JObj [(''vulnerability'',
          JObj [(''id'', JStr ''CVE-2021-1''), (''severity'', JStr ''Low'')])]) = Inr (JStr [])
   \<and> grype_match (JObj [(''vulnerability'',
          JObj [(''id'', JStr ''CVE-2021-1''), (''severity'', JStr ''Low'')])])
        ({(AStr ''CVE-2022-2'', AStr ''zlib'')}, [(''LOW'', 1)])
     = Inr ({(AStr ''CVE-2022-2'', AStr ''zlib'')}, [(''LOW'', 1)])"
proof -
  have t: "extract_trivy_vulns trivy_example
     = Inr ({(AStr ''CVE-2021-1'', AStr ''openssl''), (AStr ''CVE-2022-2'', AStr ''zlib'')},
            [(''HIGH'', 2), (''UNKNOWN'', 1)])"
    by code_simp
  have g: "extract_grype_vulns grype_example
     = Inr ({(AStr ''CVE-2021-1'', AStr ''openssl''), (AStr ''CVE-2022-2'', AStr ''zlib'')},
            [(''CRITICAL'', 2), (''UNKNOWN'', 1)])"
    by code_simp
  have ti: "trivy_id (JObj [(''VulnerabilityID'', JStr []), (''PkgName'', JStr ''openssl''),
                     (''Severity'', JStr ''high'')]) = Inr (JStr [])"
    by (simp add: trivy_id_def)
  have tv: "trivy_vuln (JObj [(''VulnerabilityID'', JStr []), (''PkgName'', JStr ''openssl''),
                       (''Severity'', JStr ''high'')])
        ({(AStr ''CVE-2022-2'', AStr ''zlib'')}, [(''LOW'', 1)])
     = Inr ({(AStr ''CVE-2022-2'', AStr ''zlib'')}, [(''LOW'', 1)])"
    by (simp add: trivy_vuln_def)
  have gp: "grype_pkg (JObj [(''vulnerability'',
          JObj [(''id'', JStr ''CVE-2021-1''), (''severity'', JStr ''Low'')])]) = Inr (JStr [])"
    by (simp add: grype_pkg_def)
  have gm: "grype_match (JObj [(''vulnerability'',
          JObj [(''id'', JStr ''CVE-2021-1''), (''severity'', JStr ''Low'')])])
        ({(AStr ''CVE-2022-2'', AStr ''zlib'')}, [(''LOW'', 1)])
     = Inr ({(AStr ''CVE-2022-2'', AStr ''zlib'')}, [(''LOW'', 1)])"
    by (simp add: grype_match_def)
  from empty_fields_dropped
    [of trivy_example
        "{(AStr ''CVE-2021-1'', AStr ''openssl''), (AStr ''CVE-2022-2'', AStr ''zlib'')}"
        "[(''HIGH'', 2), (''UNKNOWN'', 1)]"
        grype_example
        "{(AStr ''CVE-2021-1'', AStr ''openssl''), (AStr ''CVE-2022-2'', AStr ''zlib'')}"
        "[(''CRITICAL'', 2), (''UNKNOWN'', 1)]"]
    t g ti tv gp gm
  show ?thesis
    by blast
qed

text \<open>
  Claim C6. The counts of the histogram add up to the number of qualifying findings of
  the document, each occurrence counted, while the key set holds each of their keys
  once; so the histogram total is at least the number of keys.
\<close>

theorem histogram_counts_occurrences:
  "(extract_trivy_vulns d = Inr (vulns, sev) \<longrightarrow>
      counter_total sev = length (filter trivy_qualifies (trivy_findings d))
      \<and> vulns = {k. \<exists>v\<in>set (trivy_findings d). trivy_qualifies v \<and> trivy_key v = Inr k}
      \<and> finite vulns \<and> card vulns \<le> counter_total sev)
   \<and> (extract_grype_vulns d' = Inr (vulns', sev') \<longrightarrow>
      counter_total sev' = length (filter grype_qualifies (grype_findings d'))
      \<and> vulns' = {k. \<exists>m\<in>set (grype_findings d'). grype_qualifies m \<and> grype_key m = Inr k}
      \<and> finite vulns' \<and> card vulns' \<le> counter_total sev')"
proof (intro conjI impI)
  assume run: "extract_trivy_vulns d = Inr (vulns, sev)"
  note flat = extract_trivy_flat [OF run]
  from loop_counts [of trivy_vuln trivy_qualifies trivy_key trivy_label, OF trivy_vuln_step flat]
  show "counter_total sev = length (filter trivy_qualifies (trivy_findings d))"
    and "vulns = {k. \<exists>v\<in>set (trivy_findings d). trivy_qualifies v \<and> trivy_key v = Inr k}"
    by (simp_all add: counter_total_def)
  from loop_card [of trivy_vuln trivy_qualifies trivy_key trivy_label, OF trivy_vuln_step flat]
  show "finite vulns" and "card vulns \<le> counter_total sev"
    by simp_all
next
  assume run: "extract_grype_vulns d' = Inr (vulns', sev')"
  note flat = extract_grype_flat [OF run]
  from loop_counts [of grype_match grype_qualifies grype_key grype_label, OF grype_match_step flat]
  show "counter_total sev' = length (filter grype_qualifies (grype_findings d'))"
    and "vulns' = {k. \<exists>m\<in>set (grype_findings d'). grype_qualifies m \<and> grype_key m = Inr k}"
    by (simp_all add: counter_total_def)
  from loop_card [of grype_match grype_qualifies grype_key grype_label, OF grype_match_step flat]
  show "finite vulns'" and "card vulns' \<le> counter_total sev'"
    by simp_all
qed

theorem histogram_counts_occurrences_witness:
  "extract_trivy_vulns trivy_example
     = Inr ({(AStr ''CVE-2021-1'', AStr ''openssl''), (AStr ''CVE-2022-2'', AStr ''zlib'')},
            [(''HIGH'', 2), (''UNKNOWN'', 1)])
   \<and> counter_total [(''HIGH'', 2), (''UNKNOWN'', 1)] = 3
   \<and> length (filter trivy_qualifies (trivy_findings trivy_example)) = 3
   \<and> card {(AStr ''CVE-2021-1'', AStr ''openssl''), (AStr ''CVE-2022-2'', AStr ''zlib'')} = 2
   \<and> card {(AStr ''CVE-2021-1'', AStr ''openssl''), (AStr ''CVE-2022-2'', AStr ''zlib'')}
       \<le> counter_total [(''HIGH'', 2), (''UNKNOWN'', 1)]
   \<and> extract_grype_vulns grype_example
     = Inr ({(AStr ''CVE-2021-1'', AStr ''openssl''), (AStr ''CVE-2022-2'', AStr ''zlib'')},
            [(''CRITICAL'', 2), (''UNKNOWN'', 1)])
   \<and> counter_total [(''CRITICAL'', 2), (''UNKNOWN'', 1)]
       = length (filter grype_qualifies (grype_findings grype_example))"
proof -
  have t: "extract_trivy_vulns trivy_example
     = Inr ({(AStr ''CVE-2021-1'', AStr ''openssl''), (AStr ''CVE-2022-2'', AStr ''zlib'')},
            [(''HIGH'', 2), (''UNKNOWN'', 1)])"
    by code_simp
  have g: "extract_grype_vulns grype_example
     = Inr ({(AStr ''CVE-2021-1'', AStr ''openssl''), (AStr ''CVE-2022-2'', AStr ''zlib'')},
            [(''CRITICAL'', 2), (''UNKNOWN'', 1)])"
    by code_simp
  have n: "counter_total [(''HIGH'', 2), (''UNKNOWN'', 1)] = 3"
    by (simp add: counter_total_def)
  have c: "card {(AStr ''CVE-2021-1'', AStr ''openssl''), (AStr ''CVE-2022-2'', AStr ''zlib'')} = 2"
    by simp
  from histogram_counts_occurrences
    [of trivy_example
        "{(AStr ''CVE-2021-1'', AStr ''openssl''), (AStr ''CVE-2022-2'', AStr ''zlib'')}"
        "[(''HIGH'', 2), (''UNKNOWN'', 1)]"
        grype_example
        "{(AStr ''CVE-2021-1'', AStr ''openssl''), (AStr ''CVE-2022-2'', AStr ''zlib'')}"
        "[(''CRITICAL'', 2), (''UNKNOWN'', 1)]"]
    t g n c
  show ?thesis
    by simp
qed

section \<open>Severity labels\<close>

lemma same_letter_cases:
  assumes "same_letter c d"
  shows "c = d \<or> (is_ascii c \<and> is_ascii d \<and> upper_char c = upper_char d)"
proof (cases "c = d")
  case True
  then show ?thesis by simp
next
  case False
  with assms have n: "((of_char c :: nat) = of_char d + 32 \<and> 65 \<le> (of_char d :: nat)
      \<and> (of_char d :: nat) \<le> 90)
    \<or> ((of_char d :: nat) = of_char c + 32 \<and> 65 \<le> (of_char c :: nat)
      \<and> (of_char c :: nat) \<le> 90)"
    by (auto simp: same_letter_def is_lower_def is_upper_def)
  then have "(of_char (upper_char c) :: nat) = of_char (upper_char d)"
    by (auto simp: upper_char_def Let_def)
  then have "upper_char c = upper_char d"
    by (simp only: of_char_eq_iff)
  moreover from n have "is_ascii c" and "is_ascii d"
    by (auto simp: is_ascii_def)
  ultimately show ?thesis by simp
qed

lemma map_code_points_same_letter:
  assumes "list_all2 same_letter s t"
  shows "map_code_points upper_char g cp s = map_code_points upper_char g cp t"
  using assms
proof (induction s t arbitrary: cp rule: list_all2_induct)
  case Nil
  show ?case by simp
next
  case (Cons c s d t)
  from same_letter_cases [OF Cons.hyps(1)] show ?case
  proof
    assume "c = d"
    then show ?thesis by (simp add: Cons.IH)
  next
    assume "is_ascii c \<and> is_ascii d \<and> upper_char c = upper_char d"
    then show ?thesis by (simp add: Cons.IH)
  qed
qed

lemma differ_only_in_case_upper: "differ_only_in_case s t \<Longrightarrow> str_upper s = str_upper t"
  unfolding differ_only_in_case_def str_upper_def by (rule map_code_points_same_letter)

lemma counter_get_empty: "counter_get [] l = 0"
  by (simp add: counter_get_def)

lemma trivy_loop_counts:
  assumes "for_each trivy_vuln xs st = Inr r"
  shows "fst r = fst st \<union> {k. \<exists>x\<in>set xs. trivy_qualifies x \<and> trivy_key x = Inr k}
    \<and> counter_total (snd r) = counter_total (snd st) + length (filter trivy_qualifies xs)
    \<and> (\<forall>l. counter_get (snd r) l
           = counter_get (snd st) l
             + length (filter (\<lambda>x. trivy_qualifies x \<and> trivy_label x = Inr l) xs))"
  using trivy_vuln_step assms by (rule loop_counts)

lemma grype_loop_counts:
  assumes "for_each grype_match xs st = Inr r"
  shows "fst r = fst st \<union> {k. \<exists>x\<in>set xs. grype_qualifies x \<and> grype_key x = Inr k}
    \<and> counter_total (snd r) = counter_total (snd st) + length (filter grype_qualifies xs)
    \<and> (\<forall>l. counter_get (snd r) l
           = counter_get (snd st) l
             + length (filter (\<lambda>x. grype_qualifies x \<and> grype_label x = Inr l) xs))"
  using grype_match_step assms by (rule loop_counts)

text \<open>
  Claim C7, as the code has it. The labels \<^verbatim>\<open>high\<close>, \<^verbatim>\<open>HIGH\<close> and \<^verbatim>\<open>High\<close> are all
  upper-cased to \<^verbatim>\<open>HIGH\<close>, and two labels that differ only in the case of ASCII letters
  (and are equal everywhere else, whatever stands there) are upper-cased to the same
  label. Either extractor counts a qualifying finding in the bucket of its upper-cased
  severity, and in the returned histogram a bucket holds all qualifying findings with
  that upper-cased label.
\<close>

theorem severity_ascii_case_insensitive:
  "str_upper ''high'' = ''HIGH'' \<and> str_upper ''HIGH'' = ''HIGH'' \<and> str_upper ''High'' = ''HIGH''
   \<and> (differ_only_in_case s t \<longrightarrow> str_upper s = str_upper t)
   \<and> (trivy_qualifies v \<and> py_get v ''Severity'' (JStr ''UNKNOWN'') = Inr (JStr s)
        \<and> trivy_vuln v st = Inr st'
      \<longrightarrow> snd st' = counter_add (str_upper s) 1 (snd st))
   \<and> (grype_qualifies m \<and> py_get m ''vulnerability'' (JObj []) = Inr vo
        \<and> py_get vo ''severity'' (JStr ''Unknown'') = Inr (JStr s)
        \<and> grype_match m st = Inr st''
      \<longrightarrow> snd st'' = counter_add (str_upper s) 1 (snd st))
   \<and> (extract_trivy_vulns d = Inr (vulns, sev) \<longrightarrow>
        (\<forall>l. counter_get sev l
              = length (filter (\<lambda>x. trivy_qualifies x \<and> trivy_label x = Inr l)
                          (trivy_findings d))))
   \<and> (extract_grype_vulns d' = Inr (vulns', sev') \<longrightarrow>
        (\<forall>l. counter_get sev' l
              = length (filter (\<lambda>x. grype_qualifies x \<and> grype_label x = Inr l)
                          (grype_findings d'))))"
proof (intro conjI impI)
  show "str_upper ''high'' = ''HIGH''"
    by code_simp
  show "str_upper ''HIGH'' = ''HIGH''"
    by code_simp
  show "str_upper ''High'' = ''HIGH''"
    by code_simp
next
  assume "differ_only_in_case s t"
  then show "str_upper s = str_upper t"
    by (rule differ_only_in_case_upper)
next
  assume a: "trivy_qualifies v \<and> py_get v ''Severity'' (JStr ''UNKNOWN'') = Inr (JStr s)
        \<and> trivy_vuln v st = Inr st'"
  then have l: "trivy_label v = Inr (str_upper s)"
    by (simp add: trivy_label_def)
  from a have "trivy_vuln v st = Inr st'" and q: "trivy_qualifies v"
    by simp_all
  from trivy_vuln_step [OF this(1)] q obtain k l' where "trivy_label v = Inr l'"
    and "st' = (insert k (fst st), counter_add l' 1 (snd st))"
    by (auto simp only: if_True)
  with l show "snd st' = counter_add (str_upper s) 1 (snd st)"
    by simp
next
  assume a: "grype_qualifies m \<and> py_get m ''vulnerability'' (JObj []) = Inr vo
        \<and> py_get vo ''severity'' (JStr ''Unknown'') = Inr (JStr s)
        \<and> grype_match m st = Inr st''"
  then have l: "grype_label m = Inr (str_upper s)"
    by (simp add: grype_label_def)
  from a have "grype_match m st = Inr st''" and q: "grype_qualifies m"
    by simp_all
  from grype_match_step [OF this(1)] q obtain k l' where "grype_label m = Inr l'"
    and "st'' = (insert k (fst st), counter_add l' 1 (snd st))"
    by (auto simp only: if_True)
  with l show "snd st'' = counter_add (str_upper s) 1 (snd st)"
    by simp
next
  assume run: "extract_trivy_vulns d = Inr (vulns, sev)"
  note flat = extract_trivy_flat [OF run]
  have c: "counter_get (snd (vulns, sev)) l
      = counter_get (snd ({} :: finding_key set, [])) l
        + length (filter (\<lambda>x. trivy_qualifies x \<and> trivy_label x = Inr l) (trivy_findings d))" for l
    using trivy_loop_counts [OF flat] by blast
  show "\<forall>l. counter_get sev l
              = length (filter (\<lambda>x. trivy_qualifies x \<and> trivy_label x = Inr l)
                          (trivy_findings d))"
  proof
    fix l
    show "counter_get sev l
        = length (filter (\<lambda>x. trivy_qualifies x \<and> trivy_label x = Inr l) (trivy_findings d))"
      using c [of l] by (simp add: counter_get_empty)
  qed
next
  assume run: "extract_grype_vulns d' = Inr (vulns', sev')"
  note flat = extract_grype_flat [OF run]
  have c: "counter_get (snd (vulns', sev')) l
      = counter_get (snd ({} :: finding_key set, [])) l
        + length (filter (\<lambda>x. grype_qualifies x \<and> grype_label x = Inr l) (grype_findings d'))" for l
    using grype_loop_counts [OF flat] by blast
  show "\<forall>l. counter_get sev' l
              = length (filter (\<lambda>x. grype_qualifies x \<and> grype_label x = Inr l)
                          (grype_findings d'))"
  proof
    fix l
    show "counter_get sev' l
        = length (filter (\<lambda>x. grype_qualifies x \<and> grype_label x = Inr l) (grype_findings d'))"
      using c [of l] by (simp add: counter_get_empty)
  qed
qed

theorem severity_ascii_case_insensitive_witness:
  "differ_only_in_case ''high'' ''High''
   \<and> str_upper ''high'' = str_upper ''High''
   \<and> trivy_qualifies (JObj [(''VulnerabilityID'', JStr ''CVE-2021-1''),
        (''PkgName'', JStr ''openssl''), (''Severity'', JStr ''high'')])
   \<and> trivy_vuln (JObj [(''VulnerabilityID'', JStr ''CVE-2021-1''),
        (''PkgName'', JStr ''openssl''), (''Severity'', JStr ''high'')])
        ({(AStr ''CVE-2022-2'', AStr ''zlib'')}, [(''HIGH'', 1)])
     = Inr ({(AStr ''CVE-2021-1'', AStr ''openssl''), (AStr ''CVE-2022-2'', AStr ''zlib'')},
            [(''HIGH'', 2)])
   \<and> grype_qualifies (JObj [(''vulnerability'',
          JObj [(''id'', JStr ''CVE-2021-1''), (''severity'', JStr ''high'')]),
        (''artifact'', JObj [(''name'', JStr ''openssl'')])])
   \<and> grype_match (JObj [(''vulnerability'',
          JObj [(''id'', JStr ''CVE-2021-1''), (''severity'', JStr ''high'')]),
        (''artifact'', JObj [(''name'', JStr ''openssl'')])])
        ({(AStr ''CVE-2022-2'', AStr ''zlib'')}, [(''HIGH'', 1)])
     = Inr ({(AStr ''CVE-2021-1'', AStr ''openssl''), (AStr ''CVE-2022-2'', AStr ''zlib'')},
            [(''HIGH'', 2)])
   \<and> extract_trivy_vulns trivy_example
     = Inr ({(AStr ''CVE-2021-1'', AStr ''openssl''), (AStr ''CVE-2022-2'', AStr ''zlib'')},
            [(''HIGH'', 2), (''UNKNOWN'', 1)])
   \<and> counter_get [(''HIGH'', 2), (''UNKNOWN'', 1)] ''HIGH''
     = length (filter (\<lambda>x. trivy_qualifies x \<and> trivy_label x = Inr ''HIGH'')
                 (trivy_findings trivy_example))
   \<and> extract_grype_vulns grype_example
     = Inr ({(AStr ''CVE-2021-1'', AStr ''openssl''), (AStr ''CVE-2022-2'', AStr ''zlib'')},
            [(''CRITICAL'', 2), (''UNKNOWN'', 1)])
   \<and> counter_get [(''CRITICAL'', 2), (''UNKNOWN'', 1)] ''CRITICAL''
     = length (filter (\<lambda>x. grype_qualifies x \<and> grype_label x = Inr ''CRITICAL'')
                 (grype_findings grype_example))"
proof -
  have dc: "differ_only_in_case ''high'' ''High''"
    by code_simp
  have tq: "trivy_qualifies (JObj [(''VulnerabilityID'', JStr ''CVE-2021-1''),
        (''PkgName'', JStr ''openssl''), (''Severity'', JStr ''high'')])"
    by code_simp
  have ts: "py_get (JObj [(''VulnerabilityID'', JStr ''CVE-2021-1''),
        (''PkgName'', JStr ''openssl''), (''Severity'', JStr ''high'')])
        ''Severity'' (JStr ''UNKNOWN'') = Inr (JStr ''high'')"
    by simp
  have tv: "trivy_vuln (JObj [(''VulnerabilityID'', JStr ''CVE-2021-1''),
        (''PkgName'', JStr ''openssl''), (''Severity'', JStr ''high'')])
        ({(AStr ''CVE-2022-2'', AStr ''zlib'')}, [(''HIGH'', 1)])
     = Inr ({(AStr ''CVE-2021-1'', AStr ''openssl''), (AStr ''CVE-2022-2'', AStr ''zlib'')},
            [(''HIGH'', 2)])"
    by code_simp
  have gq: "grype_qualifies (JObj [(''vulnerability'',
          JObj [(''id'', JStr ''CVE-2021-1''), (''severity'', JStr ''high'')]),
        (''artifact'', JObj [(''name'', JStr ''openssl'')])])"
    by code_simp
  have gv: "py_get (JObj [(''vulnerability'',
          JObj [(''id'', JStr ''CVE-2021-1''), (''severity'', JStr ''high'')]),
        (''artifact'', JObj [(''name'', JStr ''openssl'')])]) ''vulnerability'' (JObj [])
      = Inr (JObj [(''id'', JStr ''CVE-2021-1''), (''severity'', JStr ''high'')])"
    by simp
  have gs: "py_get (JObj [(''id'', JStr ''CVE-2021-1''), (''severity'', JStr ''high'')])
        ''severity'' (JStr ''Unknown'') = Inr (JStr ''high'')"
    by simp
  have gm: "grype_match (JObj [(''vulnerability'',
          JObj [(''id'', JStr ''CVE-2021-1''), (''severity'', JStr ''high'')]),
        (''artifact'', JObj [(''name'', JStr ''openssl'')])])
        ({(AStr ''CVE-2022-2'', AStr ''zlib'')}, [(''HIGH'', 1)])
     = Inr ({(AStr ''CVE-2021-1'', AStr ''openssl''), (AStr ''CVE-2022-2'', AStr ''zlib'')},
            [(''HIGH'', 2)])"
    by code_simp
  have t: "extract_trivy_vulns trivy_example
     = Inr ({(AStr ''CVE-2021-1'', AStr ''openssl''), (AStr ''CVE-2022-2'', AStr ''zlib'')},
            [(''HIGH'', 2), (''UNKNOWN'', 1)])"
    by code_simp
  have g: "extract_grype_vulns grype_example
     = Inr ({(AStr ''CVE-2021-1'', AStr ''openssl''), (AStr ''CVE-2022-2'', AStr ''zlib'')},
            [(''CRITICAL'', 2), (''UNKNOWN'', 1)])"
    by code_simp
  from severity_ascii_case_insensitive
    [where s = "''high''" and t = "''High''"
       and v = "JObj [(''VulnerabilityID'', JStr ''CVE-2021-1''),
                      (''PkgName'', JStr ''openssl''), (''Severity'', JStr ''high'')]"
       and st = "({(AStr ''CVE-2022-2'', AStr ''zlib'')}, [(''HIGH'', 1)])"
       and st' = "({(AStr ''CVE-2021-1'', AStr ''openssl''), (AStr ''CVE-2022-2'', AStr ''zlib'')},
                   [(''HIGH'', 2)])"
       and m = "JObj [(''vulnerability'',
                        JObj [(''id'', JStr ''CVE-2021-1''), (''severity'', JStr ''high'')]),
                      (''artifact'', JObj [(''name'', JStr ''openssl'')])]"
       and vo = "JObj [(''id'', JStr ''CVE-2021-1''), (''severity'', JStr ''high'')]"
       and st'' = "({(AStr ''CVE-2021-1'', AStr ''openssl''), (AStr ''CVE-2022-2'', AStr ''zlib'')},
                   [(''HIGH'', 2)])"
       and d = trivy_example
       and vulns = "{(AStr ''CVE-2021-1'', AStr ''openssl''), (AStr ''CVE-2022-2'', AStr ''zlib'')}"
       and sev = "[(''HIGH'', 2), (''UNKNOWN'', 1)]"
       and d' = grype_example
       and vulns' = "{(AStr ''CVE-2021-1'', AStr ''openssl''), (AStr ''CVE-2022-2'', AStr ''zlib'')}"
       and sev' = "[(''CRITICAL'', 2), (''UNKNOWN'', 1)]"]
    dc tq ts tv gq gv gs gm t g
  show ?thesis
    by blast
qed

text \<open>
  Claim C7 as stated fails beyond ASCII. The labels \<^verbatim>\<open>unknown\<close> and \<^verbatim>\<open>UNKNOWN\<close> written
  with the Kelvin sign differ only in case, but \<^verbatim>\<open>str.upper\<close> leaves the Kelvin sign as
  it is, so the two findings are counted in two buckets.
\<close>

theorem severity_kelvin_sign_two_buckets:
  "code_points_differ_only_in_case
      [''u'', ''n'', ''k'', ''n'', ''o'', ''w'', ''n'']
      [''U'', ''N'', kelvin_sign, ''N'', ''O'', ''W'', ''N'']
   \<and> extract_trivy_vulns kelvin_example
     = Inr ({(AStr ''CVE-2021-1'', AStr ''openssl''), (AStr ''CVE-2022-2'', AStr ''zlib'')},
            [(''UNKNOWN'', 1),
             (concat [''U'', ''N'', kelvin_sign, ''N'', ''O'', ''W'', ''N''], 1)])
   \<and> ''UNKNOWN'' \<noteq> concat [''U'', ''N'', kelvin_sign, ''N'', ''O'', ''W'', ''N'']"
proof (intro conjI)
  show "code_points_differ_only_in_case
      [''u'', ''n'', ''k'', ''n'', ''o'', ''w'', ''n'']
      [''U'', ''N'', kelvin_sign, ''N'', ''O'', ''W'', ''N'']"
    by code_simp
  show "extract_trivy_vulns kelvin_example
     = Inr ({(AStr ''CVE-2021-1'', AStr ''openssl''), (AStr ''CVE-2022-2'', AStr ''zlib'')},
            [(''UNKNOWN'', 1),
             (concat [''U'', ''N'', kelvin_sign, ''N'', ''O'', ''W'', ''N''], 1)])"
    by code_simp
  show "''UNKNOWN'' \<noteq> concat [''U'', ''N'', kelvin_sign, ''N'', ''O'', ''W'', ''N'']"
    by (simp add: kelvin_sign_def)
qed

text \<open>
  Claim C9. A qualifying finding without a severity field is counted in the bucket
  \<^verbatim>\<open>UNKNOWN\<close> by the Trivy extractor (default \<^verbatim>\<open>UNKNOWN\<close>) and by the Grype extractor
  (default \<^verbatim>\<open>Unknown\<close>, upper-cased); a document with one such finding gives the same
  result from both.
\<close>

theorem missing_severity_is_unknown:
  "(map_of kvs ''Severity'' = None \<and> trivy_qualifies (JObj kvs)
      \<and> trivy_vuln (JObj kvs) st = Inr st'
    \<longrightarrow> snd st' = counter_add ''UNKNOWN'' 1 (snd st))
   \<and> (map_of kvs' ''vulnerability'' = Some (JObj vkvs) \<and> map_of vkvs ''severity'' = None
      \<and> grype_qualifies (JObj kvs') \<and> grype_match (JObj kvs') st = Inr st''
    \<longrightarrow> snd st'' = counter_add ''UNKNOWN'' 1 (snd st))
   \<and> (i \<noteq> [] \<and> p \<noteq> [] \<longrightarrow>
        extract_trivy_vulns
          (JObj [(''Results'', JArr [JObj [(''Vulnerabilities'',
             JArr [JObj [(''VulnerabilityID'', JStr i), (''PkgName'', JStr p)]])]])])
          = Inr ({(AStr i, AStr p)}, [(''UNKNOWN'', 1)])
        \<and> extract_grype_vulns
          (JObj [(''matches'', JArr [JObj [(''vulnerability'', JObj [(''id'', JStr i)]),
                                           (''artifact'', JObj [(''name'', JStr p)])]])])
          = Inr ({(AStr i, AStr p)}, [(''UNKNOWN'', 1)]))"
proof (intro conjI impI)
  have u: "str_upper ''UNKNOWN'' = ''UNKNOWN''" "str_upper ''Unknown'' = ''UNKNOWN''"
    by code_simp+
  {
    assume a: "map_of kvs ''Severity'' = None \<and> trivy_qualifies (JObj kvs)
      \<and> trivy_vuln (JObj kvs) st = Inr st'"
    then have "trivy_label (JObj kvs) = Inr ''UNKNOWN''"
      by (simp add: trivy_label_def u)
    with a trivy_vuln_step [of "JObj kvs" st st']
    show "snd st' = counter_add ''UNKNOWN'' 1 (snd st)"
      by auto
  }
  {
    assume a: "map_of kvs' ''vulnerability'' = Some (JObj vkvs) \<and> map_of vkvs ''severity'' = None
      \<and> grype_qualifies (JObj kvs') \<and> grype_match (JObj kvs') st = Inr st''"
    then have "grype_label (JObj kvs') = Inr ''UNKNOWN''"
      by (simp add: grype_label_def u)
    with a grype_match_step [of "JObj kvs'" st st'']
    show "snd st'' = counter_add ''UNKNOWN'' 1 (snd st)"
      by auto
  }
  {
    assume "i \<noteq> [] \<and> p \<noteq> []"
    then show "extract_trivy_vulns
          (JObj [(''Results'', JArr [JObj [(''Vulnerabilities'',
             JArr [JObj [(''VulnerabilityID'', JStr i), (''PkgName'', JStr p)]])]])])
          = Inr ({(AStr i, AStr p)}, [(''UNKNOWN'', 1)])"
      by (simp add: extract_trivy_vulns_def trivy_result_def trivy_vuln_def u
          add_finding_strings)
  }
  {
    assume "i \<noteq> [] \<and> p \<noteq> []"
    then show "extract_grype_vulns
          (JObj [(''matches'', JArr [JObj [(''vulnerability'', JObj [(''id'', JStr i)]),
                                           (''artifact'', JObj [(''name'', JStr p)])]])])
          = Inr ({(AStr i, AStr p)}, [(''UNKNOWN'', 1)])"
      by (simp add: extract_grype_vulns_def grype_match_def u add_finding_strings)
  }
qed

theorem missing_severity_is_unknown_witness:
  "map_of [(''VulnerabilityID'', JStr ''CVE-2021-1''), (''PkgName'', JStr ''openssl'')]
      ''Severity'' = None
   \<and> trivy_qualifies
        (JObj [(''VulnerabilityID'', JStr ''CVE-2021-1''), (''PkgName'', JStr ''openssl'')])
   \<and> trivy_vuln
        (JObj [(''VulnerabilityID'', JStr ''CVE-2021-1''), (''PkgName'', JStr ''openssl'')])
        ({}, [])
     = Inr ({(AStr ''CVE-2021-1'', AStr ''openssl'')}, [(''UNKNOWN'', 1)])
   \<and> map_of [(''vulnerability'', JObj [(''id'', JStr ''CVE-2021-1'')]),
              (''artifact'', JObj [(''name'', JStr ''openssl'')])] ''vulnerability''
     = Some (JObj [(''id'', JStr ''CVE-2021-1'')])
   \<and> map_of [(''id'', JStr ''CVE-2021-1'')] ''severity'' = None
   \<and> grype_qualifies
        (JObj [(''vulnerability'', JObj [(''id'', JStr ''CVE-2021-1'')]),
               (''artifact'', JObj [(''name'', JStr ''openssl'')])])
   \<and> grype_match
        (JObj [(''vulnerability'', JObj [(''id'', JStr ''CVE-2021-1'')]),
               (''artifact'', JObj [(''name'', JStr ''openssl'')])])
        ({}, [])
     = Inr ({(AStr ''CVE-2021-1'', AStr ''openssl'')}, [(''UNKNOWN'', 1)])
   \<and> ''CVE-2021-1'' \<noteq> [] \<and> ''openssl'' \<noteq> []
   \<and> extract_trivy_vulns
        (JObj [(''Results'', JArr [JObj [(''Vulnerabilities'',
           JArr [JObj [(''VulnerabilityID'', JStr ''CVE-2021-1''),
                       (''PkgName'', JStr ''openssl'')]])]])])
     = extract_grype_vulns
        (JObj [(''matches'', JArr [JObj [(''vulnerability'', JObj [(''id'', JStr ''CVE-2021-1'')]),
                                         (''artifact'', JObj [(''name'', JStr ''openssl'')])]])])"
proof -
  have tq: "trivy_qualifies
        (JObj [(''VulnerabilityID'', JStr ''CVE-2021-1''), (''PkgName'', JStr ''openssl'')])"
    by code_simp
  have tv: "trivy_vuln
        (JObj [(''VulnerabilityID'', JStr ''CVE-2021-1''), (''PkgName'', JStr ''openssl'')])
        ({}, [])
     = Inr ({(AStr ''CVE-2021-1'', AStr ''openssl'')}, [(''UNKNOWN'', 1)])"
    by code_simp
  have gq: "grype_qualifies
        (JObj [(''vulnerability'', JObj [(''id'', JStr ''CVE-2021-1'')]),
               (''artifact'', JObj [(''name'', JStr ''openssl'')])])"
    by code_simp
  have gm: "grype_match
        (JObj [(''vulnerability'', JObj [(''id'', JStr ''CVE-2021-1'')]),
               (''artifact'', JObj [(''name'', JStr ''openssl'')])])
        ({}, [])
     = Inr ({(AStr ''CVE-2021-1'', AStr ''openssl'')}, [(''UNKNOWN'', 1)])"
    by code_simp
  from missing_severity_is_unknown
    [where kvs = "[(''VulnerabilityID'', JStr ''CVE-2021-1''), (''PkgName'', JStr ''openssl'')]"
       and st = "({}, [])"
       and st' = "({(AStr ''CVE-2021-1'', AStr ''openssl'')}, [(''UNKNOWN'', 1)])"
       and kvs' = "[(''vulnerability'', JObj [(''id'', JStr ''CVE-2021-1'')]),
                    (''artifact'', JObj [(''name'', JStr ''openssl'')])]"
       and vkvs = "[(''id'', JStr ''CVE-2021-1'')]"
       and st'' = "({(AStr ''CVE-2021-1'', AStr ''openssl'')}, [(''UNKNOWN'', 1)])"
       and i = "''CVE-2021-1''" and p = "''openssl''"]
    tq tv gq gm
  show ?thesis
    by simp
qed

section \<open>Properties of the aggregate report\<close>

lemma map_of_counter_add: "map_of (counter_add k n c) = bump k n (map_of c)"
proof (induction c)
  case Nil
  show ?case by (simp add: bump_def)
next
  case (Cons kv c)
  obtain k' m where kv: "kv = (k', m)" by (cases kv)
  show ?case
    unfolding kv using Cons.IH by (auto simp: bump_def fun_eq_iff)
qed

lemma bump_commute: "bump k n (bump k' n' f) = bump k' n' (bump k n f)"
  by (auto simp: bump_def fun_eq_iff)

lemma map_of_add_items:
  "map_of (add_items d c) = fold (\<lambda>item. bump (fst item) (snd item)) d (map_of c)"
  unfolding add_items_def
  by (induction d arbitrary: c) (simp_all add: map_of_counter_add)

lemma fold_add_result_numbers:
  "total_trivy (fold add_result rs t) = total_trivy t + sum_list (map (\<lambda>r. total' (trivy r)) rs)"
  "total_grype (fold add_result rs t) = total_grype t + sum_list (map (\<lambda>r. total' (grype r)) rs)"
  "total_common (fold add_result rs t)
     = total_common t + sum_list (map (\<lambda>r. common_count (comparison r)) rs)"
  "total_only_trivy (fold add_result rs t)
     = total_only_trivy t + sum_list (map (\<lambda>r. only_trivy_count (comparison r)) rs)"
  "total_only_grype (fold add_result rs t)
     = total_only_grype t + sum_list (map (\<lambda>r. only_grype_count (comparison r)) rs)"
  by (induction rs arbitrary: t; simp add: add_result_def)+

lemma fold_add_result_severity:
  "map_of (total_trivy_severity (fold add_result rs t))
     = fold (\<lambda>item. bump (fst item) (snd item)) (concat (map (\<lambda>r. severity (trivy r)) rs))
         (map_of (total_trivy_severity t))"
  "map_of (total_grype_severity (fold add_result rs t))
     = fold (\<lambda>item. bump (fst item) (snd item)) (concat (map (\<lambda>r. severity (grype r)) rs))
         (map_of (total_grype_severity t))"
  by (induction rs arbitrary: t; simp add: add_result_def map_of_add_items)+

lemma sum_list_permuted:
  fixes g :: "'a \<Rightarrow> nat"
  assumes "mset rs' = mset rs"
  shows "sum_list (map g rs') = sum_list (map g rs)"
proof -
  have "sum_list (map g rs') = sum_mset (image_mset g (mset rs'))"
    by (simp flip: sum_mset_sum_list)
  also have "\<dots> = sum_mset (image_mset g (mset rs))"
    by (simp add: assms)
  also have "\<dots> = sum_list (map g rs)"
    by (simp flip: sum_mset_sum_list)
  finally show ?thesis .
qed

lemma concat_permuted:
  assumes "mset rs' = mset rs"
  shows "mset (concat (map g rs')) = mset (concat (map g rs))"
proof -
  have "mset (concat (map g xs)) = sum_mset (image_mset (\<lambda>r. mset (g r)) (mset xs))" for xs
    by (induction xs) simp_all
  then show ?thesis
    by (simp add: assms)
qed

lemma fold_bump_permuted:
  assumes "mset xs' = mset xs"
  shows "fold (\<lambda>item. bump (fst item) (snd item)) xs' f
       = fold (\<lambda>item. bump (fst item) (snd item)) xs f"
  by (rule fold_multiset_equiv [THEN fun_cong]) (auto simp: assms bump_commute fun_eq_iff)

text \<open>
  Claim C2. When the per-image records are permuted, the summary of the report is the
  same: the number of images, each scanner's total, each scanner's severity histogram
  as a dict (the same labels with the same counts; only the order in which the labels
  were first met can differ) and the three comparison counts. The list \<^verbatim>\<open>per_image\<close>
  keeps the order of the records it was given.
\<close>

theorem generate_report_order_independent:
  assumes "mset rs' = mset rs" and "mset imgs' = mset imgs"
  shows "images_scanned (summary (generate_report \<lparr>images = imgs', results = rs'\<rparr>))
       = images_scanned (summary (generate_report \<lparr>images = imgs, results = rs\<rparr>))
    \<and> total_findings (summary_trivy (summary (generate_report \<lparr>images = imgs', results = rs'\<rparr>)))
       = total_findings (summary_trivy (summary (generate_report \<lparr>images = imgs, results = rs\<rparr>)))
    \<and> total_findings (summary_grype (summary (generate_report \<lparr>images = imgs', results = rs'\<rparr>)))
       = total_findings (summary_grype (summary (generate_report \<lparr>images = imgs, results = rs\<rparr>)))
    \<and> map_of (summary_severity
          (summary_trivy (summary (generate_report \<lparr>images = imgs', results = rs'\<rparr>))))
       = map_of (summary_severity
          (summary_trivy (summary (generate_report \<lparr>images = imgs, results = rs\<rparr>))))
    \<and> map_of (summary_severity
          (summary_grype (summary (generate_report \<lparr>images = imgs', results = rs'\<rparr>))))
       = map_of (summary_severity
          (summary_grype (summary (generate_report \<lparr>images = imgs, results = rs\<rparr>))))
    \<and> summary_comparison (summary (generate_report \<lparr>images = imgs', results = rs'\<rparr>))
       = summary_comparison (summary (generate_report \<lparr>images = imgs, results = rs\<rparr>))
    \<and> per_image (generate_report \<lparr>images = imgs', results = rs'\<rparr>) = rs'"
proof -
  note perm = sum_list_permuted [OF assms(1)]
  have len: "length imgs' = length imgs"
    using assms(2) by (rule mset_eq_length)
  have t: "map_of (total_trivy_severity (fold add_result rs' zero_totals))
      = map_of (total_trivy_severity (fold add_result rs zero_totals))"
    unfolding fold_add_result_severity
    by (rule fold_bump_permuted) (rule concat_permuted [OF assms(1)])
  have g: "map_of (total_grype_severity (fold add_result rs' zero_totals))
      = map_of (total_grype_severity (fold add_result rs zero_totals))"
    unfolding fold_add_result_severity
    by (rule fold_bump_permuted) (rule concat_permuted [OF assms(1)])
  show ?thesis
    by (simp add: generate_report_def Let_def fold_add_result_numbers perm t g len)
qed

theorem generate_report_order_independent_witness:
  "mset [comparison_y, comparison_x] = mset [comparison_x, comparison_y]
   \<and> summary_severity (summary_trivy (summary
        (generate_report \<lparr>images = [''x'', ''y''], results = [comparison_x, comparison_y]\<rparr>)))
     = [(''CRITICAL'', 1), (''HIGH'', 1), (''LOW'', 1)]
   \<and> summary_severity (summary_trivy (summary
        (generate_report \<lparr>images = [''y'', ''x''], results = [comparison_y, comparison_x]\<rparr>)))
     = [(''HIGH'', 1), (''LOW'', 1), (''CRITICAL'', 1)]
   \<and> map_of (summary_severity (summary_trivy (summary
        (generate_report \<lparr>images = [''y'', ''x''], results = [comparison_y, comparison_x]\<rparr>))))
     = map_of (summary_severity (summary_trivy (summary
        (generate_report \<lparr>images = [''x'', ''y''], results = [comparison_x, comparison_y]\<rparr>))))
   \<and> summary_comparison (summary
        (generate_report \<lparr>images = [''y'', ''x''], results = [comparison_y, comparison_x]\<rparr>))
     = \<lparr>common_findings = 2, summary_only_trivy = 1, summary_only_grype = 1\<rparr>
   \<and> summary_comparison (summary
        (generate_report \<lparr>images = [''y'', ''x''], results = [comparison_y, comparison_x]\<rparr>))
     = summary_comparison (summary
        (generate_report \<lparr>images = [''x'', ''y''], results = [comparison_x, comparison_y]\<rparr>))"
proof -
  have perm: "mset [comparison_y, comparison_x] = mset [comparison_x, comparison_y]"
    by (simp add: add_mset_commute)
  have xy: "summary_severity (summary_trivy (summary
        (generate_report \<lparr>images = [''x'', ''y''], results = [comparison_x, comparison_y]\<rparr>)))
     = [(''CRITICAL'', 1), (''HIGH'', 1), (''LOW'', 1)]"
    by code_simp
  have yx: "summary_severity (summary_trivy (summary
        (generate_report \<lparr>images = [''y'', ''x''], results = [comparison_y, comparison_x]\<rparr>)))
     = [(''HIGH'', 1), (''LOW'', 1), (''CRITICAL'', 1)]"
    by code_simp
  have cmp: "summary_comparison (summary
        (generate_report \<lparr>images = [''y'', ''x''], results = [comparison_y, comparison_x]\<rparr>))
     = \<lparr>common_findings = 2, summary_only_trivy = 1, summary_only_grype = 1\<rparr>"
    by code_simp
  have imgs: "mset [''y'', ''x''] = mset [''x'', ''y'']"
    by (simp add: add_mset_commute)
  from generate_report_order_independent [OF perm imgs] perm xy yx cmp
  show ?thesis
    by (simp only: simp_thms)
qed

section \<open>Properties of scanning all images\<close>

lemma compare_results_image:
  "compare_results img tv gv ts gs = Inr c \<Longrightarrow> image' c = img"
  by (auto simp: compare_results_def Let_def split: sum.splits)

lemma scan_image_appends:
  assumes "scan_image env img rs = Inr rs'"
  shows "\<exists>c. rs' = rs @ [c] \<and> image' c = img"
proof -
  from assms obtain trivy_data where
    a1: "scan_with_trivy env img = Inr trivy_data"
    by (cases "scan_with_trivy env img") (simp_all add: scan_image_def)
  from assms a1 obtain grype_data where
    a2: "scan_with_grype env img = Inr grype_data"
    by (cases "scan_with_grype env img") (simp_all add: scan_image_def)
  from assms a1 a2 obtain tr where
    a3: "extract_trivy_vulns trivy_data = Inr tr"
    by (cases "extract_trivy_vulns trivy_data") (simp_all add: scan_image_def)
  from assms a1 a2 a3 obtain gr where
    a4: "extract_grype_vulns grype_data = Inr gr"
    by (cases "extract_grype_vulns grype_data"; cases tr) (simp_all add: scan_image_def)
  from assms a1 a2 a3 a4 obtain c where
    a5: "compare_results img (fst tr) (fst gr) (snd tr) (snd gr) = Inr c"
    by (cases "compare_results img (fst tr) (fst gr) (snd tr) (snd gr)"; cases tr; cases gr)
      (simp_all add: scan_image_def)
  from assms a1 a2 a3 a4 a5 have "rs' = rs @ [c]"
    by (cases tr; cases gr) (simp add: scan_image_def)
  with compare_results_image [OF a5] show ?thesis
    by blast
qed

lemma scan_loop_appends:
  "for_each (scan_image env) imgs rs = Inr rs'
   \<Longrightarrow> \<exists>new. rs' = rs @ new \<and> map image' new = imgs"
proof (induction imgs arbitrary: rs)
  case Nil
  then show ?case by simp
next
  case (Cons img imgs)
  from Cons.prems obtain rs1 where x: "scan_image env img rs = Inr rs1"
    and rest: "for_each (scan_image env) imgs rs1 = Inr rs'"
    by (cases "scan_image env img rs") simp_all
  from scan_image_appends [OF x] obtain c where rs1: "rs1 = rs @ [c]" and img: "image' c = img"
    by blast
  from Cons.IH [OF rest] obtain new where rs': "rs' = rs1 @ new" and new: "map image' new = imgs"
    by blast
  have "rs' = rs @ (c # new)"
    by (simp add: rs' rs1)
  moreover have "map image' (c # new) = img # imgs"
    by (simp add: img new)
  ultimately show ?case
    by (intro exI [of _ "c # new"] conjI)
qed

lemma compare_results_empty: "compare_results img {} {} [] [] = Inr (empty_comparison img)"
  by (simp add: compare_results_def py_sorted_def empty_comparison_def)

lemma scan_image_silent:
  assumes "\<forall>argv. \<exists>p. subprocess_run env argv = Inr p \<and> stdout p = []"
  shows "scan_image env img rs = Inr (rs @ [empty_comparison img])"
proof -
  have "run_and_parse env argv = Inr (JObj [])" for argv
  proof -
    from assms obtain p where "subprocess_run env argv = Inr p" and "stdout p = []"
      by blast
    then show ?thesis
      by (simp add: run_and_parse_def)
  qed
  then have t: "scan_with_trivy env img = Inr (JObj [])"
    and g: "scan_with_grype env img = Inr (JObj [])"
    by (simp_all add: scan_with_trivy_def scan_with_grype_def except_JSONDecodeError_def)
  have et: "extract_trivy_vulns (JObj []) = Inr ({}, [])"
    by (simp add: extract_trivy_vulns_def)
  have eg: "extract_grype_vulns (JObj []) = Inr ({}, [])"
    by (simp add: extract_grype_vulns_def)
  show ?thesis
    by (simp add: scan_image_def t g et eg compare_results_empty)
qed

lemma scan_loop_silent:
  assumes "\<forall>argv. \<exists>p. subprocess_run env argv = Inr p \<and> stdout p = []"
  shows "for_each (scan_image env) imgs rs = Inr (rs @ map empty_comparison imgs)"
  by (induction imgs arbitrary: rs) (simp_all add: scan_image_silent [OF assms])

text \<open>
  Claim C10. When \<^verbatim>\<open>scan_all\<close> returns it has appended to \<^verbatim>\<open>self.results\<close> one record
  per image, in the order of \<^verbatim>\<open>self.images\<close>. On a scanner as constructed, the report
  made afterwards has the records of the images in input order as its \<^verbatim>\<open>per_image\<close>
  list, as many as there are images, and \<^verbatim>\<open>images_scanned\<close> is their number. When every
  scanner run starts and prints nothing (a failed scan), \<^verbatim>\<open>scan_all\<close> does return, with
  the all-empty record for every image.
\<close>

theorem scan_all_one_record_per_image:
  "(scan_all env self0 = Inr self \<longrightarrow>
      images self = images self0
      \<and> (\<exists>new. results self = results self0 @ new \<and> map image' new = images self0))
   \<and> (scan_all env (VulnerabilityScanner imgs) = Inr self' \<longrightarrow>
      map image' (results self') = imgs
      \<and> per_image (generate_report self') = results self'
      \<and> length (per_image (generate_report self')) = length imgs
      \<and> images_scanned (summary (generate_report self'))
          = length (per_image (generate_report self')))
   \<and> ((\<forall>argv. \<exists>p. subprocess_run env argv = Inr p \<and> stdout p = []) \<longrightarrow>
      scan_all env (VulnerabilityScanner imgs)
        = Inr \<lparr>images = imgs, results = map empty_comparison imgs\<rparr>)"
proof (intro conjI impI)
  assume run: "scan_all env self0 = Inr self"
  then obtain rs where loop: "for_each (scan_image env) (images self0) (results self0) = Inr rs"
    and self: "self = self0\<lparr>results := rs\<rparr>"
    by (auto simp: scan_all_def split: sum.splits)
  show "images self = images self0"
    by (simp add: self)
  show "\<exists>new. results self = results self0 @ new \<and> map image' new = images self0"
    using scan_loop_appends [OF loop] by (simp add: self)
next
  assume run: "scan_all env (VulnerabilityScanner imgs) = Inr self'"
  then obtain rs where loop: "for_each (scan_image env) imgs [] = Inr rs"
    and self: "self' = \<lparr>images = imgs, results = rs\<rparr>"
    by (auto simp: scan_all_def VulnerabilityScanner_def split: sum.splits)
  from scan_loop_appends [OF loop] have rs: "map image' rs = imgs"
    by simp
  then show "map image' (results self') = imgs"
    by (simp add: self)
  show "per_image (generate_report self') = results self'"
    by (simp add: generate_report_def Let_def)
  have "length rs = length imgs"
    using rs by (metis length_map)
  then show "length (per_image (generate_report self')) = length imgs"
    and "images_scanned (summary (generate_report self'))
          = length (per_image (generate_report self'))"
    by (simp_all add: generate_report_def Let_def self)
next
  assume "\<forall>argv. \<exists>p. subprocess_run env argv = Inr p \<and> stdout p = []"
  then show "scan_all env (VulnerabilityScanner imgs)
        = Inr \<lparr>images = imgs, results = map empty_comparison imgs\<rparr>"
    by (simp add: scan_all_def VulnerabilityScanner_def scan_loop_silent)
qed

theorem scan_all_one_record_per_image_witness:
  "(\<forall>argv. \<exists>p. subprocess_run silent_failure argv = Inr p \<and> stdout p = [])
   \<and> scan_all silent_failure (VulnerabilityScanner [''nginx:latest'', ''alpine:3''])
     = Inr \<lparr>images = [''nginx:latest'', ''alpine:3''],
            results = [empty_comparison ''nginx:latest'', empty_comparison ''alpine:3'']\<rparr>
   \<and> map image' [empty_comparison ''nginx:latest'', empty_comparison ''alpine:3'']
     = [''nginx:latest'', ''alpine:3'']
   \<and> images_scanned (summary (generate_report
        \<lparr>images = [''nginx:latest'', ''alpine:3''],
         results = [empty_comparison ''nginx:latest'', empty_comparison ''alpine:3'']\<rparr>))
     = length (per_image (generate_report
        \<lparr>images = [''nginx:latest'', ''alpine:3''],
         results = [empty_comparison ''nginx:latest'', empty_comparison ''alpine:3'']\<rparr>))"
proof -
  have silent: "\<forall>argv. \<exists>p. subprocess_run silent_failure argv = Inr p \<and> stdout p = []"
    by (simp add: silent_failure_def)
  have run: "scan_all silent_failure (VulnerabilityScanner [''nginx:latest'', ''alpine:3''])
     = Inr \<lparr>images = [''nginx:latest'', ''alpine:3''],
            results = [empty_comparison ''nginx:latest'', empty_comparison ''alpine:3'']\<rparr>"
    by code_simp
  from scan_all_one_record_per_image
    [where env = silent_failure
       and self0 = "VulnerabilityScanner [''nginx:latest'', ''alpine:3'']"
       and self = "\<lparr>images = [''nginx:latest'', ''alpine:3''],
            results = [empty_comparison ''nginx:latest'', empty_comparison ''alpine:3'']\<rparr>"
       and imgs = "[''nginx:latest'', ''alpine:3'']"
       and self' = "\<lparr>images = [''nginx:latest'', ''alpine:3''],
            results = [empty_comparison ''nginx:latest'', empty_comparison ''alpine:3'']\<rparr>"]
    silent run
  show ?thesis
    by simp
qed

end
